theory Spec2Isabelle
  imports Complex_Main
begin

section \<open>LMDI index decomposition: the numeric core\<close>

text \<open>
  The embedding follows \<^verbatim>\<open>src/src/lmdi_module.py\<close>. Finite numbers are real numbers:
  on them the model computes what the program computes in exact arithmetic, without
  rounding, overflow or underflow. What numpy does beyond the finite numbers is part
  of the model: a \<^verbatim>\<open>float64\<close> operation never raises, it returns \<^verbatim>\<open>inf\<close>, \<^verbatim>\<open>-inf\<close> or
  \<^verbatim>\<open>nan\<close> (with a warning) and the computation goes on. Python's own scalars raise
  \<^verbatim>\<open>ZeroDivisionError\<close> on a division by zero.
\<close>

datatype error = ZeroDivisionError | IndexError | KeyError | ValueError | InvalidReference

definition bind_err :: "error + 'a \<Rightarrow> ('a \<Rightarrow> error + 'b) \<Rightarrow> error + 'b" where
  "bind_err m f = (case m of Inl e \<Rightarrow> Inl e | Inr x \<Rightarrow> f x)"

text \<open>A list comprehension whose elements may raise: the first exception is the result.\<close>

fun collect :: "(error + 'a) list \<Rightarrow> error + 'a list" where
  "collect [] = Inr []"
| "collect (m # ms) = bind_err m (\<lambda>x. bind_err (collect ms) (\<lambda>xs. Inr (x # xs)))"

subsection \<open>Values of \<^verbatim>\<open>numpy.float64\<close>\<close>

datatype npval = Fin real | PInf | MInf | NaN

fun np_neg :: "npval \<Rightarrow> npval" where
  "np_neg (Fin x) = Fin (- x)"
| "np_neg PInf = MInf"
| "np_neg MInf = PInf"
| "np_neg NaN = NaN"

fun np_add :: "npval \<Rightarrow> npval \<Rightarrow> npval" where
  "np_add (Fin x) (Fin y) = Fin (x + y)"
| "np_add NaN b = NaN"
| "np_add a NaN = NaN"
| "np_add PInf MInf = NaN"
| "np_add MInf PInf = NaN"
| "np_add PInf b = PInf"
| "np_add a PInf = PInf"
| "np_add MInf b = MInf"
| "np_add a MInf = MInf"

definition np_sub :: "npval \<Rightarrow> npval \<Rightarrow> npval" where
  "np_sub a b = np_add a (np_neg b)"

fun np_mul :: "npval \<Rightarrow> npval \<Rightarrow> npval" where
  "np_mul (Fin x) (Fin y) = Fin (x * y)"
| "np_mul NaN b = NaN"
| "np_mul a NaN = NaN"
| "np_mul PInf PInf = PInf"
| "np_mul PInf MInf = MInf"
| "np_mul MInf PInf = MInf"
| "np_mul MInf MInf = PInf"
| "np_mul PInf (Fin y) = (if y = 0 then NaN else if 0 < y then PInf else MInf)"
| "np_mul MInf (Fin y) = (if y = 0 then NaN else if 0 < y then MInf else PInf)"
| "np_mul (Fin x) PInf = (if x = 0 then NaN else if 0 < x then PInf else MInf)"
| "np_mul (Fin x) MInf = (if x = 0 then NaN else if 0 < x then MInf else PInf)"

text \<open>
  Division. A zero divisor is the positive zero: the zeros that the program divides by
  are the integer 0 of \<^verbatim>\<open>Lfun\<close>, a sum, or a cell of the input.
\<close>

fun np_div :: "npval \<Rightarrow> npval \<Rightarrow> npval" where
  "np_div (Fin x) (Fin y) =
     (if y \<noteq> 0 then Fin (x / y) else if x = 0 then NaN else if 0 < x then PInf else MInf)"
| "np_div NaN b = NaN"
| "np_div a NaN = NaN"
| "np_div (Fin x) PInf = Fin 0"
| "np_div (Fin x) MInf = Fin 0"
| "np_div PInf (Fin y) = (if 0 \<le> y then PInf else MInf)"
| "np_div MInf (Fin y) = (if 0 \<le> y then MInf else PInf)"
| "np_div PInf PInf = NaN"
| "np_div PInf MInf = NaN"
| "np_div MInf PInf = NaN"
| "np_div MInf MInf = NaN"

text \<open>
  \<^verbatim>\<open>np.log\<close> and \<^verbatim>\<open>np.exp\<close>. The cases of \<open>np_log\<close> are written out: the logarithm of
  the library is total (\<open>ln 0 = 0\<close> and \<open>ln (- x) = ln x\<close> there), numpy's is \<^verbatim>\<open>-inf\<close> at 0
  and \<^verbatim>\<open>nan\<close> below.
\<close>

fun np_log :: "npval \<Rightarrow> npval" where
  "np_log (Fin x) = (if 0 < x then Fin (ln x) else if x = 0 then MInf else NaN)"
| "np_log PInf = PInf"
| "np_log MInf = NaN"
| "np_log NaN = NaN"

fun np_exp :: "npval \<Rightarrow> npval" where
  "np_exp (Fin x) = Fin (exp x)"
| "np_exp PInf = PInf"
| "np_exp MInf = Fin 0"
| "np_exp NaN = NaN"

subsection \<open>Python scalars and numpy scalars\<close>

text \<open>
  A number is a Python scalar (\<^verbatim>\<open>int\<close> or \<^verbatim>\<open>float\<close>) or a numpy scalar. An operation on
  two Python scalars is Python's; as soon as one operand is a numpy scalar it is numpy's.
\<close>

datatype number = Py real | Np npval

fun to_np :: "number \<Rightarrow> npval" where
  "to_np (Py x) = Fin x"
| "to_np (Np v) = v"

text \<open>The operator \<^verbatim>\<open>/\<close>.\<close>

fun truediv :: "number \<Rightarrow> number \<Rightarrow> error + number" where
  "truediv (Py x) (Py y) = (if y = 0 then Inl ZeroDivisionError else Inr (Py (x / y)))"
| "truediv a b = Inr (Np (np_div (to_np a) (to_np b)))"

text \<open>
  \<^verbatim>\<open>sum([...])\<close> over numpy scalars: Python starts from the integer 0 and adds from
  the left.
\<close>

definition py_sum :: "npval list \<Rightarrow> npval" where
  "py_sum ts = foldl np_add (Fin 0) ts"

text \<open>\<^verbatim>\<open>xs[i]\<close> for an index produced by \<^verbatim>\<open>range\<close>, hence not negative.\<close>

definition getitem :: "'a list \<Rightarrow> nat \<Rightarrow> error + 'a" where
  "getitem xs i = (if i < length xs then Inr (xs ! i) else Inl IndexError)"

subsection \<open>Class \<^verbatim>\<open>PyLMDI\<close>\<close>

text \<open>
  The factors are a list of lists of Python scalars, as the docstring of the class has
  them, or a two-dimensional numpy array, as \<^verbatim>\<open>LMDI_decomposer\<close> passes them; the
  difference shows in \<^verbatim>\<open>end[i] / start[i]\<close> at a zero \<^verbatim>\<open>start[i]\<close>. The aggregates are
  lists of finite numbers; nothing the class does with them depends on their kind.
\<close>

datatype matrix = PyLists "real list list" | NdArray "real list list"

fun rows_of :: "matrix \<Rightarrow> real list list" where
  "rows_of (PyLists xs) = xs"
| "rows_of (NdArray xs) = xs"

fun element :: "matrix \<Rightarrow> real \<Rightarrow> number" where
  "element (PyLists xs) x = Py x"
| "element (NdArray xs) x = Np (Fin x)"

record PyLMDI =
  V0 :: "real list"
  Vt :: "real list"
  X0 :: matrix
  Xt :: matrix

text \<open>\<^verbatim>\<open>PyLMDI.__init__(self, Vt, V0, Xt, X0)\<close>, with the argument order of the source.\<close>

definition PyLMDI_init :: "real list \<Rightarrow> real list \<Rightarrow> matrix \<Rightarrow> matrix \<Rightarrow> PyLMDI" where
  "PyLMDI_init vt v0 xt x0 = \<lparr>V0 = v0, Vt = vt, X0 = x0, Xt = xt\<rparr>"

text \<open>
  \<^verbatim>\<open>Lfun(yt, y0)\<close>: the equality test comes first and returns the Python integer 0;
  otherwise \<^verbatim>\<open>(yt - y0) / (np.log(yt) - np.log(y0))\<close> is a numpy scalar.
\<close>

definition Lfun :: "real \<Rightarrow> real \<Rightarrow> number" where
  "Lfun yt y0 =
     (if yt = y0 then Py 0
      else Np (np_div (Fin (yt - y0)) (np_sub (np_log (Fin yt)) (np_log (Fin y0)))))"

text \<open>
  \<^verbatim>\<open>Xfun(xt, x0)\<close>: the two zero tests, in the order of the source, then the logarithm
  of a quotient whose divisor is not 0.
\<close>

definition Xfun :: "real \<Rightarrow> real \<Rightarrow> number" where
  "Xfun xt x0 =
     (if x0 = 0 then Py 1
      else if xt = 0 then Py 1
      else Np (np_log (Fin (xt / x0))))"

text \<open>\<^verbatim>\<open>np.log(end[i] / start[i])\<close>, which \<^verbatim>\<open>Add\<close> and \<^verbatim>\<open>Mul\<close> both write out.\<close>

definition log_ratio :: "PyLMDI \<Rightarrow> real list \<Rightarrow> real list \<Rightarrow> nat \<Rightarrow> error + npval" where
  "log_ratio self start end' i =
     bind_err (getitem end' i) (\<lambda>e.
     bind_err (getitem start i) (\<lambda>s.
     bind_err (truediv (element (Xt self) e) (element (X0 self) s)) (\<lambda>q.
     Inr (np_log (to_np q)))))"

text \<open>
  The element of the comprehension in \<^verbatim>\<open>Add\<close> for row \<open>i\<close> of one driver:
  \<^verbatim>\<open>self.Lfun(self.Vt[i], self.V0[i]) * np.log(end[i] / start[i])\<close>.
\<close>

definition add_term :: "PyLMDI \<Rightarrow> real list \<Rightarrow> real list \<Rightarrow> nat \<Rightarrow> error + npval" where
  "add_term self start end' i =
     bind_err (getitem (Vt self) i) (\<lambda>vt.
     bind_err (getitem (V0 self) i) (\<lambda>v0.
     bind_err (log_ratio self start end' i) (\<lambda>lg.
     Inr (np_mul (to_np (Lfun vt v0)) lg))))"

text \<open>The body of the loop of \<^verbatim>\<open>Add\<close>: \<^verbatim>\<open>temp\<close> for one pair of \<^verbatim>\<open>zip(self.X0, self.Xt)\<close>.\<close>

definition add_driver :: "PyLMDI \<Rightarrow> real list \<times> real list \<Rightarrow> error + npval" where
  "add_driver self p =
     bind_err (collect (map (add_term self (fst p) (snd p)) [0..<length (fst p)])) (\<lambda>ts.
     Inr (py_sum ts))"

definition Add :: "PyLMDI \<Rightarrow> error + npval list" where
  "Add self =
     bind_err (collect (map (add_driver self) (zip (rows_of (X0 self)) (rows_of (Xt self)))))
       (\<lambda>cs.
     Inr (Fin (sum_list (Vt self) - sum_list (V0 self)) # cs))"

text \<open>
  The element of the comprehension in \<^verbatim>\<open>Mul\<close>:
  \<^verbatim>\<open>self.Lfun(self.Vt[i], self.V0[i]) / self.Lfun(sum(self.Vt), sum(self.V0)) * np.log(end[i] / start[i])\<close>.
  The quotient of the two log-means is Python's when both are the integer 0, and then
  it raises.
\<close>

definition mul_term :: "PyLMDI \<Rightarrow> real list \<Rightarrow> real list \<Rightarrow> nat \<Rightarrow> error + npval" where
  "mul_term self start end' i =
     bind_err (getitem (Vt self) i) (\<lambda>vt.
     bind_err (getitem (V0 self) i) (\<lambda>v0.
     bind_err (truediv (Lfun vt v0) (Lfun (sum_list (Vt self)) (sum_list (V0 self)))) (\<lambda>w.
     bind_err (log_ratio self start end' i) (\<lambda>lg.
     Inr (np_mul (to_np w) lg)))))"

definition mul_driver :: "PyLMDI \<Rightarrow> real list \<times> real list \<Rightarrow> error + npval" where
  "mul_driver self p =
     bind_err (collect (map (mul_term self (fst p) (snd p)) [0..<length (fst p)])) (\<lambda>ts.
     Inr (np_exp (py_sum ts)))"

text \<open>
  \<^verbatim>\<open>Mul\<close>. The total ratio \<^verbatim>\<open>sum(self.Vt) / np.sum(self.V0)\<close> has a numpy divisor: it
  does not raise.
\<close>

definition Mul :: "PyLMDI \<Rightarrow> error + npval list" where
  "Mul self =
     bind_err (collect (map (mul_driver self) (zip (rows_of (X0 self)) (rows_of (Xt self)))))
       (\<lambda>cs.
     Inr (np_div (Fin (sum_list (Vt self))) (Fin (sum_list (V0 self))) # cs))"

section \<open>The panel and the single-step decomposition\<close>

text \<open>
  A \<^verbatim>\<open>pandas.DataFrame\<close> is its column labels and its rows of cells; a well-formed frame
  is rectangular (every row has one cell per label) with distinct labels. Cells are real
  numbers, the year column included: \<^verbatim>\<open>df[year_col] == year\<close> compares numerically.
  The row index is not modelled: no operation of the core reads it.
\<close>

record DataFrame =
  columns :: "string list"
  cells :: "real list list"

fun column_index :: "string \<Rightarrow> string list \<Rightarrow> nat option" where
  "column_index c [] = None"
| "column_index c (x # xs) = (if c = x then Some 0 else map_option Suc (column_index c xs))"

definition drop_nth :: "nat \<Rightarrow> 'a list \<Rightarrow> 'a list" where
  "drop_nth j xs = take j xs @ drop (Suc j) xs"

text \<open>\<^verbatim>\<open>df[df[c] == y]\<close>: a new frame with the rows of year \<open>y\<close>, in the order of the panel.\<close>

definition select_year :: "DataFrame \<Rightarrow> string \<Rightarrow> int \<Rightarrow> error + DataFrame" where
  "select_year d c y =
     (case column_index c (columns d) of
        None \<Rightarrow> Inl KeyError
      | Some j \<Rightarrow> Inr \<lparr>columns = columns d, cells = filter (\<lambda>r. r ! j = real_of_int y) (cells d)\<rparr>)"

text \<open>\<^verbatim>\<open>.set_index(c)\<close>: a new frame in which column \<open>c\<close> has left the columns.\<close>

definition set_index :: "DataFrame \<Rightarrow> string \<Rightarrow> error + DataFrame" where
  "set_index d c =
     (case column_index c (columns d) of
        None \<Rightarrow> Inl KeyError
      | Some j \<Rightarrow> Inr \<lparr>columns = drop_nth j (columns d), cells = map (drop_nth j) (cells d)\<rparr>)"

text \<open>\<^verbatim>\<open>df[c].tolist()\<close>.\<close>

definition get_column :: "DataFrame \<Rightarrow> string \<Rightarrow> error + real list" where
  "get_column d c =
     (case column_index c (columns d) of
        None \<Rightarrow> Inl KeyError
      | Some j \<Rightarrow> Inr (map (\<lambda>r. r ! j) (cells d)))"

text \<open>\<^verbatim>\<open>df[cs].values\<close>: the two-dimensional array, one row per row of the frame.\<close>

definition get_columns :: "DataFrame \<Rightarrow> string list \<Rightarrow> error + real list list" where
  "get_columns d cs =
     bind_err (collect (map (\<lambda>c. case column_index c (columns d) of
                                   None \<Rightarrow> Inl KeyError | Some j \<Rightarrow> Inr j) cs)) (\<lambda>js.
     Inr (map (\<lambda>r. map (\<lambda>j. r ! j) js) (cells d)))"

text \<open>
  \<^verbatim>\<open>.reshape([-1, 1])\<close>: the cells in row-major order, each one a row of its own.
  The result is a numpy array.
\<close>

definition reshape_column :: "real list list \<Rightarrow> real list list" where
  "reshape_column a = map (\<lambda>x. [x]) (concat a)"

text \<open>
  A Python \<^verbatim>\<open>dict\<close> keeps its keys in insertion order; storing an existing key keeps
  the position and replaces the value.
\<close>

type_synonym dict = "(string \<times> npval) list"

fun dict_set :: "string \<Rightarrow> npval \<Rightarrow> dict \<Rightarrow> dict" where
  "dict_set k v [] = [(k, v)]"
| "dict_set k v (p # ps) = (if fst p = k then (k, v) # ps else p # dict_set k v ps)"

definition dict_of :: "(string \<times> npval) list \<Rightarrow> dict" where
  "dict_of kvs = foldl (\<lambda>d kv. dict_set (fst kv) (snd kv) d) [] kvs"

text \<open>
  Objects held by reference live in a store of frames; an address is a position in it.
  \<^verbatim>\<open>df.copy()\<close> allocates. The frames that an operation builds and drops again
  (\<^verbatim>\<open>df0\<close>, \<^verbatim>\<open>df1\<close>, the arrays) are local values. An address outside the store
  does not arise in a run of the program; the model answers \<open>InvalidReference\<close>.
\<close>

type_synonym heap = "DataFrame list"

definition deref :: "heap \<Rightarrow> nat \<Rightarrow> error + DataFrame" where
  "deref h a = (if a < length h then Inr (h ! a) else Inl InvalidReference)"

record LMDI_single_step =
  df :: nat
  year :: int
  mode :: string
  drivers :: "string list"
  year_col :: string
  emissions_col :: string

text \<open>\<^verbatim>\<open>LMDI_single_step.__init__\<close>: \<^verbatim>\<open>self.df = df\<close> stores the reference it is given.\<close>

definition LMDI_single_step_init ::
  "nat \<Rightarrow> int \<Rightarrow> string \<Rightarrow> string list \<Rightarrow> string \<Rightarrow> string \<Rightarrow> LMDI_single_step" where
  "LMDI_single_step_init d y m ds yc ec =
     \<lparr>df = d, year = y, mode = m, drivers = ds, year_col = yc, emissions_col = ec\<rparr>"

text \<open>
  \<^verbatim>\<open>LMDI_decomposer\<close>, statement by statement: the two year slices, the aggregate
  columns as lists, the driver cells as arrays of shape \<open>(rows * drivers, 1)\<close>, the
  decomposition chosen by \<^verbatim>\<open>self.mode == "add"\<close>, and the dictionary built from
  \<^verbatim>\<open>zip(self.drivers, ans[1:])\<close>. Nothing is written to the store.
\<close>

definition LMDI_decomposer :: "heap \<Rightarrow> LMDI_single_step \<Rightarrow> (error + dict) \<times> heap" where
  "LMDI_decomposer h self =
     (bind_err (deref h (df self)) (\<lambda>d.
      bind_err (select_year d (year_col self) (year self)) (\<lambda>s0.
      bind_err (set_index s0 (year_col self)) (\<lambda>df0.
      bind_err (select_year d (year_col self) (year self + 1)) (\<lambda>s1.
      bind_err (set_index s1 (year_col self)) (\<lambda>df1.
      bind_err (get_column df0 (emissions_col self)) (\<lambda>C0.
      bind_err (get_column df1 (emissions_col self)) (\<lambda>Ct.
      bind_err (get_columns df0 (drivers self)) (\<lambda>a0.
      bind_err (get_columns df1 (drivers self)) (\<lambda>a1.
      bind_err (let LMDI = PyLMDI_init Ct C0 (NdArray (reshape_column a1))
                                        (NdArray (reshape_column a0))
                in if mode self = ''add'' then Add LMDI else Mul LMDI) (\<lambda>ans.
      Inr (dict_of (zip (drivers self) (drop 1 ans))))))))))))),
      h)"

section \<open>The multi-year analysis\<close>

record LMDI_analysis =
  df :: nat
  start :: int
  stop :: int
  mode :: string
  drivers :: "string list"
  year_col :: string
  emissions_col :: string

text \<open>\<^verbatim>\<open>LMDI_analysis.__init__\<close>: \<^verbatim>\<open>self.df = df.copy()\<close> is a new object with the same contents.\<close>

definition LMDI_analysis_init ::
  "heap \<Rightarrow> nat \<Rightarrow> int \<Rightarrow> int \<Rightarrow> string \<Rightarrow> string list \<Rightarrow> string \<Rightarrow> string
     \<Rightarrow> (error + LMDI_analysis) \<times> heap" where
  "LMDI_analysis_init h p s e m ds yc ec =
     (case deref h p of
        Inl err \<Rightarrow> (Inl err, h)
      | Inr d \<Rightarrow>
          (Inr \<lparr>LMDI_analysis.df = length h, start = s, stop = e, LMDI_analysis.mode = m,
                LMDI_analysis.drivers = ds, LMDI_analysis.year_col = yc,
                LMDI_analysis.emissions_col = ec\<rparr>,
           h @ [d]))"

text \<open>The single step that the loop builds for one year.\<close>

definition step_of :: "LMDI_analysis \<Rightarrow> int \<Rightarrow> LMDI_single_step" where
  "step_of self y =
     LMDI_single_step_init (LMDI_analysis.df self) y (LMDI_analysis.mode self)
       (LMDI_analysis.drivers self) (LMDI_analysis.year_col self) (LMDI_analysis.emissions_col self)"

text \<open>The loop over \<^verbatim>\<open>range(self.start, self.stop)\<close>; an exception leaves it.\<close>

fun analysis_loop ::
  "heap \<Rightarrow> LMDI_analysis \<Rightarrow> int list \<Rightarrow> dict list \<Rightarrow> (error + dict list) \<times> heap" where
  "analysis_loop h self [] res = (Inr res, h)"
| "analysis_loop h self (y # ys) res =
     (case LMDI_decomposer h (step_of self y) of
        (Inl e, h') \<Rightarrow> (Inl e, h')
      | (Inr r, h') \<Rightarrow> analysis_loop h' self ys (res @ [r]))"

text \<open>
  \<^verbatim>\<open>pd.DataFrame(res, index=range(start, stop))\<close>: one row per record, labelled by the
  index; the lengths must agree. A row is kept as its record: a key that a record
  lacks is a missing cell of that row.
\<close>

type_synonym PanelResult = "(int \<times> dict) list"

definition DataFrame_of_records :: "dict list \<Rightarrow> int list \<Rightarrow> error + PanelResult" where
  "DataFrame_of_records res idx =
     (if length res = length idx then Inr (zip idx res) else Inl ValueError)"

definition LMDI_analysis_func :: "heap \<Rightarrow> LMDI_analysis \<Rightarrow> (error + PanelResult) \<times> heap" where
  "LMDI_analysis_func h self =
     (case analysis_loop h self [start self..stop self - 1] [] of
        (Inl e, h') \<Rightarrow> (Inl e, h')
      | (Inr res, h') \<Rightarrow> (DataFrame_of_records res [start self..stop self - 1], h'))"

text \<open>A caller that builds the analysis on its panel at address \<open>p\<close> and runs it.\<close>

definition run_analysis ::
  "heap \<Rightarrow> nat \<Rightarrow> int \<Rightarrow> int \<Rightarrow> string \<Rightarrow> string list \<Rightarrow> string \<Rightarrow> string
     \<Rightarrow> (error + PanelResult) \<times> heap" where
  "run_analysis h p s e m ds yc ec =
     (case LMDI_analysis_init h p s e m ds yc ec of
        (Inl err, h') \<Rightarrow> (Inl err, h')
      | (Inr self, h') \<Rightarrow> LMDI_analysis_func h' self)"

section \<open>Notions used to state the properties\<close>

text \<open>The logarithmic mean as a real number: the value of \<open>Lfun\<close> on positive arguments.\<close>

definition lmean :: "real \<Rightarrow> real \<Rightarrow> real" where
  "lmean a b = (if a = b then 0 else (a - b) / (ln a - ln b))"

text \<open>Each row's aggregate is the product of that row's driver values.\<close>

definition product_identity :: "real list \<Rightarrow> real list list \<Rightarrow> bool" where
  "product_identity v x = (\<forall>i\<in>{..<length v}. v ! i = prod_list (map (\<lambda>d. d ! i) x))"

text \<open>
  Aligned input: aggregates of equal length, driver matrices of the same shape with
  one value per row.
\<close>

definition aligned :: "PyLMDI \<Rightarrow> bool" where
  "aligned self =
     (length (Vt self) = length (V0 self) \<and>
      length (rows_of (Xt self)) = length (rows_of (X0 self)) \<and>
      (\<forall>d\<in>set (rows_of (X0 self)). length d = length (V0 self)) \<and>
      (\<forall>d\<in>set (rows_of (Xt self)). length d = length (V0 self)))"

text \<open>
  A valid transition: aligned input with positive aggregates and the product identity
  in both periods.
\<close>

definition valid_transition :: "PyLMDI \<Rightarrow> bool" where
  "valid_transition self =
     (aligned self \<and>
      (\<forall>a\<in>set (V0 self). 0 < a) \<and> (\<forall>a\<in>set (Vt self). 0 < a) \<and>
      product_identity (V0 self) (rows_of (X0 self)) \<and>
      product_identity (Vt self) (rows_of (Xt self)))"

text \<open>Every driver value has a positive ratio to its value in the initial period.\<close>

definition positive_ratios :: "PyLMDI \<Rightarrow> bool" where
  "positive_ratios self =
     (\<forall>p\<in>set (zip (rows_of (X0 self)) (rows_of (Xt self))).
        \<forall>i\<in>{..<length (fst p)}. 0 < snd p ! i / fst p ! i)"

text \<open>
  The values that a factor takes when every term of its sum was divided by zero:
  \<^verbatim>\<open>exp\<close> of \<^verbatim>\<open>-inf\<close>, of \<^verbatim>\<open>inf\<close> or of \<^verbatim>\<open>nan\<close>.
\<close>

definition degenerate_factor :: "npval \<Rightarrow> bool" where
  "degenerate_factor c = (c = Fin 0 \<or> c = PInf \<or> c = NaN)"

fun finite_val :: "npval \<Rightarrow> bool" where
  "finite_val (Fin x) = True"
| "finite_val PInf = False"
| "finite_val MInf = False"
| "finite_val NaN = False"

fun is_ndarray :: "matrix \<Rightarrow> bool" where
  "is_ndarray (NdArray xs) = True"
| "is_ndarray (PyLists xs) = False"

text \<open>Some row has the same aggregate in both periods.\<close>

definition unchanged_row :: "PyLMDI \<Rightarrow> bool" where
  "unchanged_row self = (\<exists>i\<in>{..<length (V0 self)}. Vt self ! i = V0 self ! i)"

text \<open>Both factor matrices hold Python scalars and some initial driver value is 0.\<close>

definition python_zero_division :: "PyLMDI \<Rightarrow> bool" where
  "python_zero_division self =
     (\<not> is_ndarray (X0 self) \<and> \<not> is_ndarray (Xt self) \<and>
      (\<exists>s\<in>set (rows_of (X0 self)). 0 \<in> set s))"

text \<open>The condition under which the term of row \<open>i\<close> raises when the totals are equal.\<close>

definition raises_at :: "PyLMDI \<Rightarrow> real list \<Rightarrow> nat \<Rightarrow> bool" where
  "raises_at self s i =
     (Vt self ! i = V0 self ! i \<or>
      (\<not> is_ndarray (Xt self) \<and> \<not> is_ndarray (X0 self) \<and> s ! i = 0))"

text \<open>
  The additive decomposition as section 4.3 of the specification words it, with
  \<open>Xfun\<close> (LogRatio) for the logarithm of the ratio; \<open>Add\<close> above is the source.
\<close>

definition add_term_spec :: "PyLMDI \<Rightarrow> real list \<Rightarrow> real list \<Rightarrow> nat \<Rightarrow> error + npval" where
  "add_term_spec self start' end' i =
     bind_err (getitem (Vt self) i) (\<lambda>vt.
     bind_err (getitem (V0 self) i) (\<lambda>v0.
     bind_err (getitem end' i) (\<lambda>e.
     bind_err (getitem start' i) (\<lambda>s.
     Inr (np_mul (to_np (Lfun vt v0)) (to_np (Xfun e s)))))))"

definition Add_spec :: "PyLMDI \<Rightarrow> error + npval list" where
  "Add_spec self =
     bind_err (collect (map (\<lambda>p.
         bind_err (collect (map (add_term_spec self (fst p) (snd p)) [0..<length (fst p)])) (\<lambda>ts.
         Inr (py_sum ts))) (zip (rows_of (X0 self)) (rows_of (Xt self))))) (\<lambda>cs.
     Inr (Fin (sum_list (Vt self) - sum_list (V0 self)) # cs))"

subsection \<open>Concrete inputs\<close>

text \<open>Two rows, two drivers, the product identity holds: 2 = 1 * 2, 3 = 3 * 1, 6 = 2 * 3, 12 = 3 * 4.\<close>

definition closure_example :: PyLMDI where
  "closure_example =
     PyLMDI_init [6, 12] [2, 3] (PyLists [[2, 3], [3, 4]]) (PyLists [[1, 3], [2, 1]])"

text \<open>One row, two drivers that are negative in the initial period: 1 = (-1) * (-1), 2 = 1 * 2.\<close>

definition negative_drivers_example :: PyLMDI where
  "negative_drivers_example =
     PyLMDI_init [2] [1] (PyLists [[1], [2]]) (PyLists [[- 1], [- 1]])"

text \<open>One row whose only driver is 0 in the final period.\<close>

definition zero_driver_example :: PyLMDI where
  "zero_driver_example = PyLMDI_init [2] [1] (PyLists [[0]]) (PyLists [[1]])"

text \<open>The example of section 8: \<open>V0 = [10, 10]\<close>, \<open>Vt = [12, 8]\<close>, \<open>X0 = [2, 2]\<close>, \<open>Xt = [3, 1]\<close>.\<close>

definition spec_example :: PyLMDI where
  "spec_example = PyLMDI_init [12, 8] [10, 10] (PyLists [[3, 1]]) (PyLists [[2, 2]])"

definition spec_example_contribution :: real where
  "spec_example_contribution = 2 * ln (3 / 2) / ln (6 / 5) - 2 * ln 2 / ln (5 / 4)"

text \<open>The same aggregates with the driver equal to the aggregate.\<close>

definition identity_example :: PyLMDI where
  "identity_example = PyLMDI_init [12, 8] [10, 10] (PyLists [[12, 8]]) (PyLists [[10, 10]])"

text \<open>The same aggregates, whose totals are equal, with a driver that halves in both rows.\<close>

definition halving_example :: PyLMDI where
  "halving_example = PyLMDI_init [12, 8] [10, 10] (PyLists [[1, 1]]) (PyLists [[2, 2]])"

text \<open>Equal totals and an unchanged first row.\<close>

definition unchanged_row_example :: PyLMDI where
  "unchanged_row_example = PyLMDI_init [10, 12, 8] [10, 10, 10] (NdArray [[1, 1, 1]]) (NdArray [[2, 2, 2]])"

text \<open>
  A panel of two years with two unit rows each; the only driver column \<open>D\<close> equals the
  aggregate column \<open>E\<close> in every row. The total change from year 0 to year 1 is
  \<open>(2 + 3) - (1 + 1) = 3\<close>.
\<close>

definition two_unit_panel :: DataFrame where
  "two_unit_panel =
     \<lparr>columns = [''year'', ''E'', ''D''],
      cells = [[0, 1, 1], [0, 1, 1], [1, 2, 2], [1, 3, 3]]\<rparr>"

text \<open>A panel of three years with one row each.\<close>

definition three_year_panel :: DataFrame where
  "three_year_panel =
     \<lparr>columns = [''year'', ''E'', ''D''],
      cells = [[0, 1, 1], [1, 2, 2], [2, 1, 1]]\<rparr>"

text \<open>A panel of two years whose aggregate does not change.\<close>

definition flat_panel :: DataFrame where
  "flat_panel =
     \<lparr>columns = [''year'', ''E'', ''D''],
      cells = [[0, 1, 1], [1, 1, 1]]\<rparr>"

text \<open>The analysis object that the constructor builds on a store of one panel.\<close>

definition three_year_analysis :: LMDI_analysis where
  "three_year_analysis =
     \<lparr>LMDI_analysis.df = 1, start = 0, stop = 2, LMDI_analysis.mode = ''add'',
      LMDI_analysis.drivers = [''D''], LMDI_analysis.year_col = ''year'',
      LMDI_analysis.emissions_col = ''E''\<rparr>"

text \<open>The same object with the multiplicative mode, run over years that the panel lacks.\<close>

definition absent_years_analysis :: LMDI_analysis where
  "absent_years_analysis =
     \<lparr>LMDI_analysis.df = 1, start = 5, stop = 7, LMDI_analysis.mode = ''mul'',
      LMDI_analysis.drivers = [''D''], LMDI_analysis.year_col = ''year'',
      LMDI_analysis.emissions_col = ''E''\<rparr>"

section \<open>Auxiliary facts\<close>

lemmas core_defs = PyLMDI_init_def Add_def add_driver_def add_term_def Mul_def mul_driver_def
  mul_term_def log_ratio_def getitem_def Lfun_def np_sub_def py_sum_def bind_err_def

lemma collect_map_Inr:
  "(\<And>x. x \<in> set xs \<Longrightarrow> f x = Inr (g x)) \<Longrightarrow> collect (map f xs) = Inr (map g xs)"
  by (induction xs) (simp_all add: bind_err_def)

lemma foldl_np_add_Fin: "foldl np_add (Fin a) (map Fin xs) = Fin (a + sum_list xs)"
  by (induction xs arbitrary: a) (simp_all add: add.assoc)

lemma py_sum_Fin: "py_sum (map Fin xs) = Fin (sum_list xs)"
  by (simp add: py_sum_def foldl_np_add_Fin)

lemma to_np_Lfun_pos: "0 < a \<Longrightarrow> 0 < b \<Longrightarrow> to_np (Lfun a b) = Fin (lmean a b)"
  by (simp add: Lfun_def lmean_def np_sub_def)

lemma Lfun_pos_distinct:
  "0 < a \<Longrightarrow> 0 < b \<Longrightarrow> a \<noteq> b \<Longrightarrow> Lfun a b = Np (Fin (lmean a b))"
  by (simp add: Lfun_def lmean_def np_sub_def)

lemma logmean_term:
  fixes a b :: real
  assumes "0 < a" "0 < b" "a \<noteq> b"
  shows "(a - b) / (ln a - ln b) * ln (a / b) = a - b"
proof -
  have "ln a - ln b \<noteq> 0" using assms by simp
  then show ?thesis using assms by (simp add: ln_divide_pos)
qed

lemma lmean_ln:
  assumes "0 < a" "0 < b"
  shows "lmean a b * ln (a / b) = a - b"
proof (cases "a = b")
  case True
  then show ?thesis by (simp add: lmean_def)
next
  case False
  with assms have "(a - b) / (ln a - ln b) * ln (a / b) = a - b" by (rule logmean_term)
  with False show ?thesis by (simp only: lmean_def if_False)
qed

lemma lmean_nonzero: "0 < a \<Longrightarrow> 0 < b \<Longrightarrow> a \<noteq> b \<Longrightarrow> lmean a b \<noteq> 0"
  by (simp add: lmean_def)

lemma exp_diff_over_lmean:
  assumes "0 < a" "0 < b" "a \<noteq> b"
  shows "exp ((a - b) / lmean a b) = a / b"
proof -
  have "ln a - ln b \<noteq> 0" using assms by simp
  then have "(a - b) / lmean a b = ln a - ln b" using assms by (simp add: lmean_def)
  then show ?thesis using assms by (simp add: exp_diff)
qed

lemma prod_list_map_pos:
  "(\<And>x. x \<in> set xs \<Longrightarrow> 0 < f x) \<Longrightarrow> 0 < prod_list (map f xs :: real list)"
  by (induction xs) simp_all

lemma sum_list_pos_nonempty:
  "xs \<noteq> [] \<Longrightarrow> (\<And>x. x \<in> set xs \<Longrightarrow> 0 < x) \<Longrightarrow> 0 < sum_list (xs :: real list)"
  by (induction xs) (auto intro: add_pos_nonneg sum_list_nonneg less_imp_le)

lemma prod_list_exp: "prod_list (map (\<lambda>x. exp (f x :: real)) xs) = exp (sum_list (map f xs))"
  by (induction xs) (simp_all add: exp_add)

text \<open>Exchanging the sum over the drivers with the sum over the rows.\<close>

lemma sum_ln_ratios:
  assumes "\<And>p i. p \<in> set ps \<Longrightarrow> i < n \<Longrightarrow> 0 < snd p ! i / fst p ! (i::nat)"
  shows "sum_list (map (\<lambda>p. \<Sum>i<n. (w i :: real) * ln (snd p ! i / fst p ! i)) ps)
       = (\<Sum>i<n. w i * ln (prod_list (map (\<lambda>p. snd p ! i / fst p ! i) ps)))"
  using assms
proof (induction ps)
  case Nil
  then show ?case by simp
next
  case (Cons p ps)
  have pos: "0 < prod_list (map (\<lambda>p. snd p ! i / fst p ! i) ps)" if "i < n" for i
    by (rule prod_list_map_pos) (simp add: Cons.prems that)
  have "\<And>i. i < n \<Longrightarrow> ln (snd p ! i / fst p ! i * prod_list (map (\<lambda>p. snd p ! i / fst p ! i) ps))
        = ln (snd p ! i / fst p ! i) + ln (prod_list (map (\<lambda>p. snd p ! i / fst p ! i) ps))"
    using Cons.prems pos by (intro ln_mult_pos) auto
  then have "(\<Sum>i<n. w i * ln (prod_list (map (\<lambda>p. snd p ! i / fst p ! i) (p # ps))))
     = (\<Sum>i<n. w i * ln (snd p ! i / fst p ! i)
               + w i * ln (prod_list (map (\<lambda>p. snd p ! i / fst p ! i) ps)))"
    by (simp add: distrib_left)
  also have "\<dots> = (\<Sum>i<n. w i * ln (snd p ! i / fst p ! i))
                 + (\<Sum>i<n. w i * ln (prod_list (map (\<lambda>p. snd p ! i / fst p ! i) ps)))"
    by (simp add: sum.distrib)
  finally show ?case using Cons by simp
qed

lemma prod_ratio_zip:
  "length xs = length ys \<Longrightarrow>
   prod_list (map (\<lambda>p. snd p ! i / fst p ! i) (zip xs ys))
   = prod_list (map (\<lambda>d. d ! i) ys) / prod_list (map (\<lambda>d. d ! (i::nat)) (xs :: real list list))"
  by (induction xs ys rule: list_induct2) simp_all

subsection \<open>The decomposition on a valid transition\<close>

lemma aligned_zip_lengths:
  assumes "aligned self" "p \<in> set (zip (rows_of (X0 self)) (rows_of (Xt self)))"
  shows "length (fst p) = length (V0 self)" "length (snd p) = length (V0 self)"
proof -
  from assms(2) have "fst p \<in> set (rows_of (X0 self))" "snd p \<in> set (rows_of (Xt self))"
    by (metis prod.collapse set_zip_leftD, metis prod.collapse set_zip_rightD)
  with assms(1) show "length (fst p) = length (V0 self)" "length (snd p) = length (V0 self)"
    by (auto simp: aligned_def)
qed

lemma valid_row_positive:
  assumes "valid_transition self" "i < length (V0 self)"
  shows "0 < Vt self ! i" "0 < V0 self ! i"
  using assms by (auto simp: valid_transition_def aligned_def)

lemma truediv_elements:
  "s \<noteq> 0 \<Longrightarrow> \<exists>q. truediv (element xt e) (element x0 s) = Inr q \<and> to_np q = Fin (e / s)"
  by (cases xt; cases x0) simp_all

lemma log_ratio_Inr:
  assumes "i < length s" "i < length e" "0 < e ! i / s ! i"
  shows "log_ratio self s e i = Inr (Fin (ln (e ! i / s ! i)))"
proof -
  from assms(3) have "s ! i \<noteq> 0" by (metis div_by_0 less_irrefl)
  then obtain q where "truediv (element (Xt self) (e ! i)) (element (X0 self) (s ! i)) = Inr q"
    "to_np q = Fin (e ! i / s ! i)"
    using truediv_elements by blast
  then show ?thesis using assms
    by (simp add: log_ratio_def getitem_def bind_err_def)
qed

lemma add_term_Inr:
  assumes "i < length (Vt self)" "i < length (V0 self)" "i < length s" "i < length e"
    "0 < Vt self ! i" "0 < V0 self ! i" "0 < e ! i / s ! i"
  shows "add_term self s e i = Inr (Fin (lmean (Vt self ! i) (V0 self ! i) * ln (e ! i / s ! i)))"
  using assms
  by (simp add: add_term_def getitem_def log_ratio_Inr to_np_Lfun_pos bind_err_def)

lemma add_driver_Inr:
  assumes "valid_transition self" "positive_ratios self"
    "p \<in> set (zip (rows_of (X0 self)) (rows_of (Xt self)))"
  shows "add_driver self p
       = Inr (Fin (\<Sum>i<length (V0 self). lmean (Vt self ! i) (V0 self ! i) * ln (snd p ! i / fst p ! i)))"
proof -
  let ?n = "length (V0 self)"
  let ?t = "\<lambda>i. lmean (Vt self ! i) (V0 self ! i) * ln (snd p ! i / fst p ! i)"
  have al: "aligned self" using assms(1) by (simp add: valid_transition_def)
  note len = aligned_zip_lengths [OF al assms(3)]
  have vt: "length (Vt self) = ?n" using al by (simp add: aligned_def)
  have "collect (map (add_term self (fst p) (snd p)) [0..<length (fst p)])
      = Inr (map (\<lambda>i. Fin (?t i)) [0..<length (fst p)])"
  proof (rule collect_map_Inr)
    fix i assume "i \<in> set [0..<length (fst p)]"
    then have i: "i < ?n" using len by simp
    moreover note valid_row_positive [OF assms(1) i]
    moreover have "0 < snd p ! i / fst p ! i"
      using assms(2,3) i len by (auto simp: positive_ratios_def)
    ultimately show "add_term self (fst p) (snd p) i = Inr (Fin (?t i))"
      using len vt by (intro add_term_Inr) simp_all
  qed
  moreover have "map (\<lambda>i. Fin (?t i)) [0..<length (fst p)] = map Fin (map ?t [0..<length (fst p)])"
    by simp
  ultimately show ?thesis
    by (simp only: add_driver_def bind_err_def sum.case py_sum_Fin)
       (simp add: len interv_sum_list_conv_sum_set_nat atLeast0LessThan)
qed

lemma weighted_ratio_sum:
  assumes "valid_transition self" "positive_ratios self"
  shows "sum_list (map (\<lambda>p. \<Sum>i<length (V0 self). (w i :: real) * ln (snd p ! i / fst p ! i))
            (zip (rows_of (X0 self)) (rows_of (Xt self))))
       = (\<Sum>i<length (V0 self). w i * ln (Vt self ! i / V0 self ! i))"
proof -
  let ?n = "length (V0 self)" and ?ps = "zip (rows_of (X0 self)) (rows_of (Xt self))"
  have al: "aligned self" using assms(1) by (simp add: valid_transition_def)
  have vt: "length (Vt self) = ?n" "length (rows_of (X0 self)) = length (rows_of (Xt self))"
    using al by (simp_all add: aligned_def)
  have ratio: "0 < snd p ! i / fst p ! i" if "p \<in> set ?ps" "i < ?n" for p i
    using assms(2) that aligned_zip_lengths(1) [OF al that(1)]
    by (auto simp: positive_ratios_def)
  have row: "prod_list (map (\<lambda>p. snd p ! i / fst p ! i) ?ps) = Vt self ! i / V0 self ! i"
    if i: "i < ?n" for i
    using assms(1) i vt by (simp add: prod_ratio_zip valid_transition_def product_identity_def)
  have "sum_list (map (\<lambda>p. \<Sum>i<?n. w i * ln (snd p ! i / fst p ! i)) ?ps)
      = (\<Sum>i<?n. w i * ln (prod_list (map (\<lambda>p. snd p ! i / fst p ! i) ?ps)))"
    using ratio by (rule sum_ln_ratios)
  also have "\<dots> = (\<Sum>i<?n. w i * ln (Vt self ! i / V0 self ! i))"
    using row by simp
  finally show ?thesis .
qed

lemma Add_valid_value:
  assumes "valid_transition self" "positive_ratios self"
  shows "Add self = Inr (map Fin ((sum_list (Vt self) - sum_list (V0 self))
           # map (\<lambda>p. \<Sum>i<length (V0 self). lmean (Vt self ! i) (V0 self ! i) * ln (snd p ! i / fst p ! i))
               (zip (rows_of (X0 self)) (rows_of (Xt self)))))"
proof -
  let ?g = "\<lambda>p. \<Sum>i<length (V0 self). lmean (Vt self ! i) (V0 self ! i) * ln (snd p ! i / fst p ! i)"
  let ?ps = "zip (rows_of (X0 self)) (rows_of (Xt self))"
  have "collect (map (add_driver self) ?ps) = Inr (map (\<lambda>p. Fin (?g p)) ?ps)"
    using assms by (intro collect_map_Inr add_driver_Inr)
  then show ?thesis by (simp add: Add_def bind_err_def comp_def)
qed

lemma Add_contributions_total:
  assumes "valid_transition self" "positive_ratios self"
  shows "sum_list (map (\<lambda>p. \<Sum>i<length (V0 self). lmean (Vt self ! i) (V0 self ! i) * ln (snd p ! i / fst p ! i))
            (zip (rows_of (X0 self)) (rows_of (Xt self))))
       = sum_list (Vt self) - sum_list (V0 self)"
proof -
  let ?n = "length (V0 self)"
  have vt: "length (Vt self) = ?n" using assms(1) by (simp add: valid_transition_def aligned_def)
  have "sum_list (map (\<lambda>p. \<Sum>i<?n. lmean (Vt self ! i) (V0 self ! i) * ln (snd p ! i / fst p ! i))
            (zip (rows_of (X0 self)) (rows_of (Xt self))))
      = (\<Sum>i<?n. lmean (Vt self ! i) (V0 self ! i) * ln (Vt self ! i / V0 self ! i))"
    using assms by (rule weighted_ratio_sum)
  also have "\<dots> = (\<Sum>i<?n. Vt self ! i - V0 self ! i)"
    using valid_row_positive [OF assms(1)] by (simp add: lmean_ln)
  also have "\<dots> = (\<Sum>i<?n. Vt self ! i) - (\<Sum>i<?n. V0 self ! i)"
    by (simp add: sum_subtractf)
  also have "\<dots> = sum_list (Vt self) - sum_list (V0 self)"
    using vt by (simp add: sum_list_sum_nth atLeast0LessThan)
  finally show ?thesis .
qed

lemma totals_positive:
  assumes "valid_transition self" "sum_list (Vt self) \<noteq> sum_list (V0 self)"
  shows "0 < sum_list (Vt self) \<and> 0 < sum_list (V0 self)"
proof -
  have len: "length (Vt self) = length (V0 self)"
    using assms(1) by (simp add: valid_transition_def aligned_def)
  have "V0 self \<noteq> []" using assms(2) len by auto
  moreover then have "Vt self \<noteq> []" using len by auto
  ultimately show ?thesis using assms(1)
    by (auto simp: valid_transition_def intro!: sum_list_pos_nonempty)
qed

lemma truediv_Lfun_pos:
  assumes "0 < a" "0 < b" "0 < st" "0 < s0" "st \<noteq> s0"
  shows "truediv (Lfun a b) (Lfun st s0) = Inr (Np (Fin (lmean a b / lmean st s0)))"
proof -
  have "lmean st s0 \<noteq> 0" using assms by (intro lmean_nonzero)
  moreover have "Lfun st s0 = Np (Fin (lmean st s0))" using assms by (intro Lfun_pos_distinct)
  moreover have "to_np (Lfun a b) = Fin (lmean a b)" using assms by (intro to_np_Lfun_pos)
  ultimately show ?thesis by (cases "Lfun a b") simp_all
qed

lemma mul_term_Inr:
  assumes "i < length (Vt self)" "i < length (V0 self)" "i < length s" "i < length e"
    "0 < Vt self ! i" "0 < V0 self ! i" "0 < e ! i / s ! i"
    "0 < sum_list (Vt self)" "0 < sum_list (V0 self)" "sum_list (Vt self) \<noteq> sum_list (V0 self)"
  shows "mul_term self s e i
       = Inr (Fin (lmean (Vt self ! i) (V0 self ! i) / lmean (sum_list (Vt self)) (sum_list (V0 self))
              * ln (e ! i / s ! i)))"
  using assms
  by (simp add: mul_term_def getitem_def log_ratio_Inr truediv_Lfun_pos bind_err_def)

lemma mul_driver_Inr:
  assumes "valid_transition self" "positive_ratios self"
    "p \<in> set (zip (rows_of (X0 self)) (rows_of (Xt self)))"
    "sum_list (Vt self) \<noteq> sum_list (V0 self)"
  shows "mul_driver self p
       = Inr (Fin (exp (\<Sum>i<length (V0 self). lmean (Vt self ! i) (V0 self ! i)
                    / lmean (sum_list (Vt self)) (sum_list (V0 self)) * ln (snd p ! i / fst p ! i))))"
proof -
  let ?n = "length (V0 self)"
  let ?t = "\<lambda>i. lmean (Vt self ! i) (V0 self ! i)
                    / lmean (sum_list (Vt self)) (sum_list (V0 self)) * ln (snd p ! i / fst p ! i)"
  have al: "aligned self" using assms(1) by (simp add: valid_transition_def)
  note len = aligned_zip_lengths [OF al assms(3)]
  have vt: "length (Vt self) = ?n" using al by (simp add: aligned_def)
  note tot = totals_positive [OF assms(1,4)]
  have "collect (map (mul_term self (fst p) (snd p)) [0..<length (fst p)])
      = Inr (map (\<lambda>i. Fin (?t i)) [0..<length (fst p)])"
  proof (rule collect_map_Inr)
    fix i assume "i \<in> set [0..<length (fst p)]"
    then have i: "i < ?n" using len by simp
    moreover note valid_row_positive [OF assms(1) i]
    moreover have "0 < snd p ! i / fst p ! i"
      using assms(2,3) i len by (auto simp: positive_ratios_def)
    ultimately show "mul_term self (fst p) (snd p) i = Inr (Fin (?t i))"
      using len vt tot assms(4) by (intro mul_term_Inr) simp_all
  qed
  moreover have "map (\<lambda>i. Fin (?t i)) [0..<length (fst p)] = map Fin (map ?t [0..<length (fst p)])"
    by simp
  ultimately show ?thesis
    by (simp only: mul_driver_def bind_err_def sum.case py_sum_Fin)
       (simp add: len interv_sum_list_conv_sum_set_nat atLeast0LessThan)
qed

lemma Mul_valid_value:
  assumes "valid_transition self" "positive_ratios self"
    "sum_list (Vt self) \<noteq> sum_list (V0 self)"
  shows "Mul self = Inr (map Fin (sum_list (Vt self) / sum_list (V0 self)
           # map (\<lambda>p. exp (\<Sum>i<length (V0 self). lmean (Vt self ! i) (V0 self ! i)
                    / lmean (sum_list (Vt self)) (sum_list (V0 self)) * ln (snd p ! i / fst p ! i)))
               (zip (rows_of (X0 self)) (rows_of (Xt self)))))"
proof -
  let ?g = "\<lambda>p. exp (\<Sum>i<length (V0 self). lmean (Vt self ! i) (V0 self ! i)
                    / lmean (sum_list (Vt self)) (sum_list (V0 self)) * ln (snd p ! i / fst p ! i))"
  let ?ps = "zip (rows_of (X0 self)) (rows_of (Xt self))"
  have "collect (map (mul_driver self) ?ps) = Inr (map (\<lambda>p. Fin (?g p)) ?ps)"
    using assms by (intro collect_map_Inr mul_driver_Inr)
  moreover have "sum_list (V0 self) \<noteq> 0" using totals_positive [OF assms(1,3)] by simp
  ultimately show ?thesis by (simp add: Mul_def bind_err_def comp_def)
qed

lemma Mul_contributions_total:
  assumes "valid_transition self" "positive_ratios self"
    "sum_list (Vt self) \<noteq> sum_list (V0 self)"
  shows "prod_list (map (\<lambda>p. exp (\<Sum>i<length (V0 self). lmean (Vt self ! i) (V0 self ! i)
                    / lmean (sum_list (Vt self)) (sum_list (V0 self)) * ln (snd p ! i / fst p ! i)))
               (zip (rows_of (X0 self)) (rows_of (Xt self))))
       = sum_list (Vt self) / sum_list (V0 self)"
proof -
  let ?n = "length (V0 self)" and ?ps = "zip (rows_of (X0 self)) (rows_of (Xt self))"
  let ?L = "lmean (sum_list (Vt self)) (sum_list (V0 self))"
  let ?w = "\<lambda>i. lmean (Vt self ! i) (V0 self ! i) / ?L"
  let ?g = "\<lambda>p. \<Sum>i<?n. ?w i * ln (snd p ! i / fst p ! i)"
  note tot = totals_positive [OF assms(1,3)]
  have len: "length (Vt self) = ?n" using assms(1) by (simp add: valid_transition_def aligned_def)
  have "sum_list (map ?g ?ps) = (\<Sum>i<?n. ?w i * ln (Vt self ! i / V0 self ! i))"
    using assms(1,2) by (rule weighted_ratio_sum)
  also have "\<dots> = (\<Sum>i<?n. (Vt self ! i - V0 self ! i) / ?L)"
  proof (rule sum.cong)
    fix i assume "i \<in> {..<?n}"
    then have "0 < Vt self ! i" "0 < V0 self ! i"
      using valid_row_positive [OF assms(1)] by simp_all
    then have "lmean (Vt self ! i) (V0 self ! i) * ln (Vt self ! i / V0 self ! i)
             = Vt self ! i - V0 self ! i"
      by (rule lmean_ln)
    then show "?w i * ln (Vt self ! i / V0 self ! i) = (Vt self ! i - V0 self ! i) / ?L"
      by (metis times_divide_eq_left)
  qed simp
  also have "\<dots> = ((\<Sum>i<?n. Vt self ! i) - (\<Sum>i<?n. V0 self ! i)) / ?L"
    by (simp only: sum_divide_distrib [symmetric] sum_subtractf)
  also have "\<dots> = (sum_list (Vt self) - sum_list (V0 self)) / ?L"
    using len by (simp add: sum_list_sum_nth atLeast0LessThan)
  finally have "exp (sum_list (map ?g ?ps)) = sum_list (Vt self) / sum_list (V0 self)"
    using tot assms(3) by (simp add: exp_diff_over_lmean)
  then show ?thesis by (simp add: prod_list_exp)
qed

subsection \<open>The concrete inputs\<close>

lemma closure_example_valid: "valid_transition closure_example"
  by (simp add: valid_transition_def aligned_def product_identity_def closure_example_def
      PyLMDI_init_def lessThan_Suc)

lemma closure_example_ratios: "positive_ratios closure_example"
  by (simp add: positive_ratios_def closure_example_def PyLMDI_init_def lessThan_Suc)

lemma negative_drivers_valid: "valid_transition negative_drivers_example"
  by (simp add: valid_transition_def aligned_def product_identity_def negative_drivers_example_def
      PyLMDI_init_def)

lemma spec_example_Add: "Add spec_example = Inr [Fin 0, Fin spec_example_contribution]"
proof -
  have a: "ln 12 \<noteq> ln (10::real)" "ln 8 \<noteq> ln (10 :: real)" by simp_all
  have l1: "ln 12 - ln 10 = ln (6 / 5 :: real)"
    using ln_divide_pos [of "12 :: real" 10] by simp
  have l2: "ln 8 - ln 10 = - ln (5 / 4 :: real)"
    using ln_divide_pos [of "10 :: real" 8] by simp
  have l3: "ln (1 / 2 :: real) = - ln 2"
    by (simp add: ln_divide_pos)
  have "Add spec_example
      = Inr [Fin 0, Fin (0 + (12 - 10) / (ln 12 - ln 10) * ln (3 / 2)
                           + (8 - 10) / (ln 8 - ln 10) * ln (1 / 2))]"
    using a by (simp add: core_defs spec_example_def)
  also have "0 + (12 - 10) / (ln 12 - ln 10) * ln (3 / 2) + (8 - 10) / (ln 8 - ln 10) * ln (1 / 2)
      = spec_example_contribution"
    unfolding l1 l2 l3 spec_example_contribution_def by simp
  finally show ?thesis .
qed

lemma spec_example_contribution_neg: "spec_example_contribution < 0"
proof -
  let ?a = "ln (3 / 2 :: real)" and ?b = "ln (6 / 5 :: real)"
  let ?c = "ln (2 :: real)" and ?d = "ln (5 / 4 :: real)"
  have pos: "0 < ?a" "0 < ?b" "0 < ?c" "0 < ?d" by simp_all
  have "ln ((3 / 2 :: real) ^ 3) < ln (2 ^ 2)"
    by (subst ln_less_cancel_iff) (simp_all add: power3_eq_cube)
  then have ac: "3 * ?a < 2 * ?c" by (simp only: ln_realpow)
  have "ln ((5 / 4 :: real) ^ 2) < ln ((6 / 5) ^ 3)"
    by (subst ln_less_cancel_iff) (simp_all add: power2_eq_square power3_eq_cube)
  then have db: "2 * ?d < 3 * ?b" by (simp only: ln_realpow)
  have "0 < 2 * ?c" "0 \<le> 2 * ?d" by simp_all
  with ac db have "(3 * ?a) * (2 * ?d) < (2 * ?c) * (3 * ?b)"
    by (rule mult_strict_mono)
  then have "?a * ?d < ?c * ?b" by simp
  then have "?a / ?b < ?c / ?d" using pos by (simp add: divide_simps mult.commute)
  then show ?thesis by (simp add: spec_example_contribution_def)
qed

lemma identity_example_Add: "Add identity_example = Inr [Fin 0, Fin 0]"
proof -
  have a: "ln 12 \<noteq> ln (10::real)" "ln 8 \<noteq> ln (10 :: real)" by simp_all
  have "Add identity_example
      = Inr [Fin 0, Fin (0 + (12 - 10) / (ln 12 - ln 10) * ln (12 / 10)
                           + (8 - 10) / (ln 8 - ln 10) * ln (8 / 10))]"
    using a by (simp add: core_defs identity_example_def)
  moreover have "(12 - 10) / (ln 12 - ln 10) * ln (12 / 10) = (12 - 10 :: real)"
    by (rule logmean_term) simp_all
  moreover have "(8 - 10) / (ln 8 - ln 10) * ln (8 / 10) = (8 - 10 :: real)"
    by (rule logmean_term) simp_all
  ultimately show ?thesis by (simp only:) simp
qed

subsection \<open>Equal totals: every term is divided by zero\<close>

lemma np_div_zero_nonfinite: "\<not> finite_val (np_div v (Fin 0))"
  by (cases v) simp_all

lemma np_mul_nonfinite: "\<not> finite_val a \<Longrightarrow> \<not> finite_val (np_mul a b)"
  by (cases a; cases b) simp_all

lemma np_add_nonfinite_left: "\<not> finite_val a \<Longrightarrow> \<not> finite_val (np_add a b)"
  by (cases a; cases b) simp_all

lemma np_add_nonfinite_right: "\<not> finite_val b \<Longrightarrow> \<not> finite_val (np_add a b)"
  by (cases a; cases b) simp_all

lemma foldl_np_add_nonfinite: "\<not> finite_val a \<Longrightarrow> \<not> finite_val (foldl np_add a xs)"
  by (induction xs arbitrary: a) (simp_all add: np_add_nonfinite_left)

lemma py_sum_nonfinite:
  assumes "xs \<noteq> []" "\<And>x. x \<in> set xs \<Longrightarrow> \<not> finite_val x"
  shows "\<not> finite_val (py_sum xs)"
proof -
  obtain x xs' where xs: "xs = x # xs'" using assms(1) by (cases xs) auto
  then have "\<not> finite_val (np_add (Fin 0) x)" using assms(2) by (simp add: np_add_nonfinite_right)
  then show ?thesis using xs by (simp add: py_sum_def foldl_np_add_nonfinite)
qed

lemma np_exp_nonfinite: "\<not> finite_val v \<Longrightarrow> degenerate_factor (np_exp v)"
  by (cases v) (simp_all add: degenerate_factor_def)

lemma collect_outcomes:
  assumes "\<And>x. x \<in> set xs \<Longrightarrow> f x = Inl E \<or> (\<exists>y. f x = Inr y \<and> P y)"
  shows "(if \<exists>x\<in>set xs. f x = Inl E then collect (map f xs) = Inl E
          else \<exists>ys. collect (map f xs) = Inr ys \<and> length ys = length xs \<and> (\<forall>y\<in>set ys. P y))"
  using assms
proof (induction xs)
  case Nil
  then show ?case by simp
next
  case (Cons x xs)
  have ih: "(if \<exists>x\<in>set xs. f x = Inl E then collect (map f xs) = Inl E
          else \<exists>ys. collect (map f xs) = Inr ys \<and> length ys = length xs \<and> (\<forall>y\<in>set ys. P y))"
    using Cons by simp
  from Cons.prems [of x] consider "f x = Inl E" | y where "f x = Inr y" "P y" by auto
  then show ?case
  proof cases
    case 1
    then show ?thesis by (simp add: bind_err_def)
  next
    case 2
    show ?thesis
    proof (cases "\<exists>x\<in>set xs. f x = Inl E")
      case True
      then show ?thesis using ih 2 by (simp add: bind_err_def)
    next
      case False
      then obtain ys where "collect (map f xs) = Inr ys" "length ys = length xs" "\<forall>y\<in>set ys. P y"
        using ih by auto
      then show ?thesis using False 2 by (simp add: bind_err_def)
    qed
  qed
qed

lemma truediv_element_outcome:
  "(if \<not> is_ndarray xt \<and> \<not> is_ndarray x0 \<and> s = 0
    then truediv (element xt e) (element x0 s) = Inl ZeroDivisionError
    else \<exists>q. truediv (element xt e) (element x0 s) = Inr q)"
  by (cases xt; cases x0) simp_all

lemma mul_term_equal_totals:
  assumes "sum_list (Vt self) = sum_list (V0 self)"
    "i < length (Vt self)" "i < length (V0 self)" "i < length s" "i < length e"
  shows "(if raises_at self s i then mul_term self s e i = Inl ZeroDivisionError
          else \<exists>t. mul_term self s e i = Inr t \<and> \<not> finite_val t)"
proof (cases "Vt self ! i = V0 self ! i")
  case True
  then show ?thesis using assms
    by (simp add: raises_at_def mul_term_def getitem_def Lfun_def bind_err_def)
next
  case False
  let ?v = "np_div (Fin (Vt self ! i - V0 self ! i))
              (np_sub (np_log (Fin (Vt self ! i))) (np_log (Fin (V0 self ! i))))"
  have w: "truediv (Lfun (Vt self ! i) (V0 self ! i)) (Lfun (sum_list (Vt self)) (sum_list (V0 self)))
         = Inr (Np (np_div ?v (Fin 0)))"
    using False assms(1) by (simp add: Lfun_def)
  have run: "mul_term self s e i =
      bind_err (truediv (element (Xt self) (e ! i)) (element (X0 self) (s ! i)))
        (\<lambda>q. Inr (np_mul (np_div ?v (Fin 0)) (np_log (to_np q))))"
    using assms(2-5)
    by (simp add: mul_term_def log_ratio_def getitem_def w bind_err_def
          del: np_log.simps np_div.simps split: sum.splits)
  show ?thesis
  proof (cases "\<not> is_ndarray (Xt self) \<and> \<not> is_ndarray (X0 self) \<and> s ! i = 0")
    case True
    then have "truediv (element (Xt self) (e ! i)) (element (X0 self) (s ! i)) = Inl ZeroDivisionError"
      using truediv_element_outcome [of "Xt self" "X0 self" "s ! i" "e ! i"] by simp
    then show ?thesis using True run by (simp add: raises_at_def bind_err_def)
  next
    case nd: False
    then obtain q where "truediv (element (Xt self) (e ! i)) (element (X0 self) (s ! i)) = Inr q"
      using truediv_element_outcome [of "Xt self" "X0 self" "s ! i" "e ! i"] by auto
    then have "mul_term self s e i = Inr (np_mul (np_div ?v (Fin 0)) (np_log (to_np q)))"
      using run by (simp add: bind_err_def)
    moreover have "\<not> finite_val (np_mul (np_div ?v (Fin 0)) (np_log (to_np q)))"
      by (intro np_mul_nonfinite np_div_zero_nonfinite)
    moreover have "\<not> raises_at self s i" using False nd by (auto simp: raises_at_def)
    ultimately show ?thesis by simp
  qed
qed

lemma mul_driver_equal_totals:
  assumes "sum_list (Vt self) = sum_list (V0 self)" "aligned self" "V0 self \<noteq> []"
    "p \<in> set (zip (rows_of (X0 self)) (rows_of (Xt self)))"
  shows "(if \<exists>i<length (V0 self). raises_at self (fst p) i
          then mul_driver self p = Inl ZeroDivisionError
          else \<exists>c. mul_driver self p = Inr c \<and> degenerate_factor c)"
proof -
  let ?n = "length (V0 self)"
  let ?f = "mul_term self (fst p) (snd p)"
  note len = aligned_zip_lengths [OF assms(2,4)]
  have vt: "length (Vt self) = ?n" using assms(2) by (simp add: aligned_def)
  have each: "?f i = Inl ZeroDivisionError \<or> (\<exists>t. ?f i = Inr t \<and> \<not> finite_val t)"
    and iff: "?f i = Inl ZeroDivisionError \<longleftrightarrow> raises_at self (fst p) i"
    if "i \<in> set [0..<?n]" for i
  proof -
    have i: "i < ?n" using that by simp
    have o: "(if raises_at self (fst p) i then ?f i = Inl ZeroDivisionError
          else \<exists>t. ?f i = Inr t \<and> \<not> finite_val t)"
      using i len vt by (intro mul_term_equal_totals [OF assms(1)]) simp_all
    show "?f i = Inl ZeroDivisionError \<or> (\<exists>t. ?f i = Inr t \<and> \<not> finite_val t)"
      using o by (auto split: if_splits)
    show "?f i = Inl ZeroDivisionError \<longleftrightarrow> raises_at self (fst p) i"
      using o by (auto split: if_splits)
  qed
  have out: "(if \<exists>i\<in>set [0..<?n]. ?f i = Inl ZeroDivisionError
          then collect (map ?f [0..<?n]) = Inl ZeroDivisionError
          else \<exists>ts. collect (map ?f [0..<?n]) = Inr ts \<and> length ts = length [0..<?n]
                  \<and> (\<forall>t\<in>set ts. \<not> finite_val t))"
    using each by (rule collect_outcomes)
  have ex: "(\<exists>i\<in>set [0..<?n]. ?f i = Inl ZeroDivisionError) \<longleftrightarrow> (\<exists>i<?n. raises_at self (fst p) i)"
    using iff by auto
  show ?thesis
  proof (cases "\<exists>i<?n. raises_at self (fst p) i")
    case True
    then show ?thesis using out ex by (simp add: mul_driver_def len bind_err_def)
  next
    case False
    then obtain ts where ts: "collect (map ?f [0..<?n]) = Inr ts" "length ts = ?n"
      "\<forall>t\<in>set ts. \<not> finite_val t"
      using out ex by auto
    then have "ts \<noteq> []" using assms(3) by auto
    then have "\<not> finite_val (py_sum ts)" using ts(3) by (intro py_sum_nonfinite) auto
    then have "degenerate_factor (np_exp (py_sum ts))" by (rule np_exp_nonfinite)
    then show ?thesis using False ts(1) by (simp add: mul_driver_def len bind_err_def)
  qed
qed

lemma raises_somewhere:
  assumes "aligned self" "rows_of (X0 self) \<noteq> []"
  shows "(\<exists>p\<in>set (zip (rows_of (X0 self)) (rows_of (Xt self))).
            \<exists>i<length (V0 self). raises_at self (fst p) i)
         \<longleftrightarrow> unchanged_row self \<or> python_zero_division self"
proof -
  let ?ps = "zip (rows_of (X0 self)) (rows_of (Xt self))"
  have eq: "length (rows_of (Xt self)) = length (rows_of (X0 self))"
    using assms(1) by (simp add: aligned_def)
  then have fsts: "fst ` set ?ps = set (rows_of (X0 self))"
    by (metis map_fst_zip set_map)
  have ne: "?ps \<noteq> []" using assms(2) eq by (cases "rows_of (X0 self)"; cases "rows_of (Xt self)") auto
  have len: "length s = length (V0 self)" if "s \<in> set (rows_of (X0 self))" for s
    using assms(1) that by (simp add: aligned_def)
  show ?thesis
  proof
    assume "\<exists>p\<in>set ?ps. \<exists>i<length (V0 self). raises_at self (fst p) i"
    then obtain p i where p: "p \<in> set ?ps" "i < length (V0 self)" "raises_at self (fst p) i"
      by auto
    have s: "fst p \<in> set (rows_of (X0 self))" using p(1) fsts by blast
    show "unchanged_row self \<or> python_zero_division self"
    proof (cases "Vt self ! i = V0 self ! i")
      case True
      then show ?thesis using p(2) by (auto simp: unchanged_row_def)
    next
      case False
      then have "\<not> is_ndarray (Xt self)" "\<not> is_ndarray (X0 self)" "fst p ! i = 0"
        using p(3) by (auto simp: raises_at_def)
      moreover have "fst p ! i \<in> set (fst p)" using p(2) len [OF s] by simp
      ultimately show ?thesis using s by (auto simp: python_zero_division_def)
    qed
  next
    assume a: "unchanged_row self \<or> python_zero_division self"
    show "\<exists>p\<in>set ?ps. \<exists>i<length (V0 self). raises_at self (fst p) i"
    proof (cases "unchanged_row self")
      case True
      then obtain i where "i < length (V0 self)" "Vt self ! i = V0 self ! i"
        by (auto simp: unchanged_row_def)
      moreover obtain p where "p \<in> set ?ps" using ne by (cases ?ps) auto
      ultimately show ?thesis by (auto simp: raises_at_def)
    next
      case False
      with a have z: "python_zero_division self" by simp
      then obtain s where s: "s \<in> set (rows_of (X0 self))" "0 \<in> set s"
        by (auto simp: python_zero_division_def)
      then obtain i where i: "i < length s" "s ! i = 0" by (auto simp: in_set_conv_nth)
      obtain p where p: "p \<in> set ?ps" "fst p = s" using s(1) fsts by (metis imageE)
      have "i < length (V0 self)" using i(1) len [OF s(1)] by simp
      moreover have "raises_at self (fst p) i"
        using z i(2) p(2) by (simp add: raises_at_def python_zero_division_def)
      ultimately show ?thesis using p(1) by blast
    qed
  qed
qed

lemma Mul_on_equal_totals:
  assumes "sum_list (Vt self) = sum_list (V0 self)" "aligned self" "V0 self \<noteq> []"
    "rows_of (X0 self) \<noteq> []"
  shows "(if unchanged_row self \<or> python_zero_division self
          then Mul self = Inl ZeroDivisionError
          else \<exists>cs. Mul self
                       = Inr (np_div (Fin (sum_list (Vt self))) (Fin (sum_list (V0 self))) # cs)
                  \<and> length cs = length (rows_of (X0 self))
                  \<and> (\<forall>c\<in>set cs. degenerate_factor c))"
proof -
  let ?ps = "zip (rows_of (X0 self)) (rows_of (Xt self))"
  let ?n = "length (V0 self)"
  have each: "mul_driver self p = Inl ZeroDivisionError
           \<or> (\<exists>c. mul_driver self p = Inr c \<and> degenerate_factor c)"
    and iff: "mul_driver self p = Inl ZeroDivisionError \<longleftrightarrow> (\<exists>i<?n. raises_at self (fst p) i)"
    if "p \<in> set ?ps" for p
    using mul_driver_equal_totals [OF assms(1-3) that] by (auto split: if_splits)
  have out: "(if \<exists>p\<in>set ?ps. mul_driver self p = Inl ZeroDivisionError
          then collect (map (mul_driver self) ?ps) = Inl ZeroDivisionError
          else \<exists>cs. collect (map (mul_driver self) ?ps) = Inr cs \<and> length cs = length ?ps
                  \<and> (\<forall>c\<in>set cs. degenerate_factor c))"
    using each by (rule collect_outcomes)
  have ex: "(\<exists>p\<in>set ?ps. mul_driver self p = Inl ZeroDivisionError)
         \<longleftrightarrow> unchanged_row self \<or> python_zero_division self"
    using iff raises_somewhere [OF assms(2,4)] by auto
  have len: "length ?ps = length (rows_of (X0 self))"
    using assms(2) by (simp add: aligned_def)
  show ?thesis
  proof (cases "unchanged_row self \<or> python_zero_division self")
    case True
    then show ?thesis using out ex by (simp add: Mul_def bind_err_def)
  next
    case False
    then obtain cs where "collect (map (mul_driver self) ?ps) = Inr cs" "length cs = length ?ps"
      "\<forall>c\<in>set cs. degenerate_factor c"
      using out ex by auto
    then show ?thesis using False len by (simp add: Mul_def bind_err_def)
  qed
qed

subsection \<open>The store and the loop over the years\<close>

lemmas frame_defs = LMDI_decomposer_def LMDI_single_step_init_def deref_def select_year_def
  set_index_def get_column_def get_columns_def reshape_column_def drop_nth_def dict_of_def

lemma LMDI_decomposer_heap: "snd (LMDI_decomposer h st) = h"
  by (simp add: LMDI_decomposer_def)

lemma analysis_loop_collect:
  "analysis_loop h self ys res =
     (case collect (map (\<lambda>y. fst (LMDI_decomposer h (step_of self y))) ys) of
        Inl e \<Rightarrow> (Inl e, h) | Inr rs \<Rightarrow> (Inr (res @ rs), h))"
proof (induction ys arbitrary: res)
  case Nil
  then show ?case by simp
next
  case (Cons y ys)
  obtain r h' where d: "LMDI_decomposer h (step_of self y) = (r, h')"
    by (cases "LMDI_decomposer h (step_of self y)")
  then have h': "h' = h" using LMDI_decomposer_heap [of h "step_of self y"] by simp
  show ?case
  proof (cases r)
    case (Inl e)
    then show ?thesis using d h' by (simp add: bind_err_def)
  next
    case (Inr x)
    then show ?thesis using d h' Cons.IH [of "res @ [x]"]
      by (simp add: bind_err_def split: sum.splits)
  qed
qed

lemma collect_length: "collect ms = Inr xs \<Longrightarrow> length xs = length ms"
  by (induction ms arbitrary: xs) (auto simp: bind_err_def split: sum.splits)

lemma collect_nth: "collect ms = Inr xs \<Longrightarrow> i < length ms \<Longrightarrow> ms ! i = Inr (xs ! i)"
proof (induction ms arbitrary: xs i)
  case Nil
  then show ?case by simp
next
  case (Cons m ms)
  then show ?case
    by (cases i) (auto simp: bind_err_def split: sum.splits)
qed

lemma collect_Inl: "collect ms = Inl e \<Longrightarrow> Inl e \<in> set ms"
  by (induction ms) (auto simp: bind_err_def split: sum.splits)

lemma collect_Inr_iff: "(\<exists>xs. collect ms = Inr xs) \<longleftrightarrow> (\<forall>m\<in>set ms. \<exists>x. m = Inr x)"
proof (induction ms)
  case Nil
  then show ?case by simp
next
  case (Cons m ms)
  then show ?case by (cases m) (auto simp: bind_err_def split: sum.splits)
qed

lemma LMDI_analysis_func_collect:
  "fst (LMDI_analysis_func h self) =
     (case collect (map (\<lambda>y. fst (LMDI_decomposer h (step_of self y)))
                     [start self..stop self - 1]) of
        Inl e \<Rightarrow> Inl e | Inr rs \<Rightarrow> Inr (zip [start self..stop self - 1] rs))"
proof (cases "collect (map (\<lambda>y. fst (LMDI_decomposer h (step_of self y)))
                     [start self..stop self - 1])")
  case (Inl e)
  then show ?thesis by (simp add: LMDI_analysis_func_def analysis_loop_collect)
next
  case (Inr rs)
  then have "length rs = length [start self..stop self - 1]"
    using collect_length by fastforce
  then show ?thesis using Inr
    by (simp add: LMDI_analysis_func_def analysis_loop_collect DataFrame_of_records_def)
qed

lemma analysis_loop_heap: "snd (analysis_loop h self ys res) = h"
  by (simp add: analysis_loop_collect split: sum.splits)

lemma LMDI_analysis_func_heap: "snd (LMDI_analysis_func h self) = h"
proof -
  obtain r h' where l: "analysis_loop h self [start self..stop self - 1] [] = (r, h')"
    by (cases "analysis_loop h self [start self..stop self - 1] []")
  then have "h' = h"
    using analysis_loop_heap [of h self "[start self..stop self - 1]" "[]"] by simp
  then show ?thesis using l by (cases r) (simp_all add: LMDI_analysis_func_def)
qed

lemma LMDI_analysis_init_copy:
  assumes "LMDI_analysis_init h p s e m ds yc ec = (Inr self, h1)"
  shows "p < length h" "LMDI_analysis.df self = length h" "h1 = h @ [h ! p]"
  using assms by (auto simp: LMDI_analysis_init_def deref_def split: if_splits)

lemma three_year_steps:
  "fst (LMDI_decomposer [three_year_panel, three_year_panel] (step_of three_year_analysis 0))
     = Inr [(''D'', Fin 1)]"
  "fst (LMDI_decomposer [three_year_panel, three_year_panel] (step_of three_year_analysis 1))
     = Inr [(''D'', Fin (- 1))]"
  by (simp_all add: step_of_def three_year_analysis_def frame_defs core_defs three_year_panel_def
      ln_divide_pos)

lemma absent_years_steps:
  "fst (LMDI_decomposer [three_year_panel, three_year_panel] (step_of absent_years_analysis 5))
     = Inr []"
  "fst (LMDI_decomposer [three_year_panel, three_year_panel] (step_of absent_years_analysis 6))
     = Inr []"
  by (simp_all add: step_of_def absent_years_analysis_def frame_defs core_defs three_year_panel_def)

section \<open>Properties of the numeric core\<close>

text \<open>
  C10. The logarithmic mean is symmetric: for all real \<open>a\<close> and \<open>b\<close>, \<open>Lfun a b = Lfun b a\<close>.
  Equal arguments give 0 either way; on distinct positive arguments the quotient is
  symmetric; a zero argument gives 0 and a negative one \<^verbatim>\<open>nan\<close> in both orders.
\<close>

theorem Lfun_symmetric: "Lfun a b = Lfun b a"
proof (cases "a = b")
  case True
  then show ?thesis by simp
next
  case False
  have q: "(a - b) / (ln a - ln b) = (b - a) / (ln b - ln a)"
    by (metis minus_diff_eq minus_divide_divide)
  show ?thesis
  proof (cases "0 < a \<and> 0 < b")
    case True
    with False have "ln a \<noteq> ln b" by simp
    then show ?thesis using True False q by (simp add: Lfun_def np_sub_def)
  next
    case nonpos: False
    then show ?thesis using False by (auto simp add: Lfun_def np_sub_def)
  qed
qed

text \<open>
  C1, as stated, fails: positive aggregates with the product identity do not keep the
  drivers positive. With \<open>V0 = [1]\<close>, \<open>Vt = [2]\<close>, \<open>X0 = [[-1], [-1]]\<close>, \<open>Xt = [[1], [2]]\<close>
  the identity holds in both periods, and \<open>Add\<close> takes the logarithm of \<open>1 / (-1)\<close>:
  the total change is 1 and both contributions are \<^verbatim>\<open>nan\<close>.
\<close>

theorem Add_negative_drivers_nan:
  "valid_transition negative_drivers_example
   \<and> Add negative_drivers_example = Inr [Fin 1, NaN, NaN]"
  by (simp add: negative_drivers_valid) (simp add: core_defs negative_drivers_example_def)

text \<open>
  C1 (amended). Additive closure: on a valid transition in which every driver value has
  a positive ratio to its initial value, \<open>Add\<close> returns the total change
  \<open>sum Vt - sum V0\<close> followed by one contribution per driver, all of them real numbers,
  and the contributions sum to the total change exactly.
\<close>

theorem Add_closure_positive_ratios:
  assumes "valid_transition self" "positive_ratios self"
  shows "\<exists>total cs. Add self = Inr (map Fin (total # cs))
           \<and> length cs = length (rows_of (X0 self))
           \<and> total = sum_list (Vt self) - sum_list (V0 self) \<and> sum_list cs = total"
proof -
  let ?g = "\<lambda>p. \<Sum>i<length (V0 self). lmean (Vt self ! i) (V0 self ! i) * ln (snd p ! i / fst p ! i)"
  let ?ps = "zip (rows_of (X0 self)) (rows_of (Xt self))"
  have "length (map ?g ?ps) = length (rows_of (X0 self))"
    using assms(1) by (simp add: valid_transition_def aligned_def)
  then show ?thesis
    using Add_valid_value [OF assms] Add_contributions_total [OF assms] by blast
qed

theorem Add_closure_positive_ratios_witness:
  "valid_transition closure_example \<and> positive_ratios closure_example \<and>
   (\<exists>total cs. Add closure_example = Inr (map Fin (total # cs)) \<and> length cs = 2
        \<and> total = 13 \<and> sum_list cs = total)"
  using Add_closure_positive_ratios [OF closure_example_valid closure_example_ratios]
    closure_example_valid closure_example_ratios
  by (simp add: closure_example_def PyLMDI_init_def numeral_2_eq_2)

text \<open>
  C2, as stated, fails at the same input: the total ratio is 2, the sums differ, and
  \<open>Mul\<close> takes the logarithm of \<open>1 / (-1)\<close>: both factors are \<^verbatim>\<open>nan\<close>.
\<close>

theorem Mul_negative_drivers_nan:
  "valid_transition negative_drivers_example
   \<and> sum_list (Vt negative_drivers_example) \<noteq> sum_list (V0 negative_drivers_example)
   \<and> Mul negative_drivers_example = Inr [Fin 2, NaN, NaN]"
  by (simp add: negative_drivers_valid) (simp add: core_defs negative_drivers_example_def)

text \<open>
  C2 (amended). Multiplicative closure: on a valid transition with \<open>sum Vt \<noteq> sum V0\<close>
  in which every driver value has a positive ratio to its initial value, \<open>Mul\<close> returns
  the total ratio \<open>sum Vt / sum V0\<close> followed by one factor per driver, all of them real
  numbers, and the product of the factors is the total ratio exactly.
\<close>

theorem Mul_closure_positive_ratios:
  assumes "valid_transition self" "positive_ratios self"
    "sum_list (Vt self) \<noteq> sum_list (V0 self)"
  shows "\<exists>total cs. Mul self = Inr (map Fin (total # cs))
           \<and> length cs = length (rows_of (X0 self))
           \<and> total = sum_list (Vt self) / sum_list (V0 self) \<and> prod_list cs = total"
proof -
  let ?g = "\<lambda>p. exp (\<Sum>i<length (V0 self). lmean (Vt self ! i) (V0 self ! i)
                    / lmean (sum_list (Vt self)) (sum_list (V0 self)) * ln (snd p ! i / fst p ! i))"
  let ?ps = "zip (rows_of (X0 self)) (rows_of (Xt self))"
  have "length (map ?g ?ps) = length (rows_of (X0 self))"
    using assms(1) by (simp add: valid_transition_def aligned_def)
  then show ?thesis
    using Mul_valid_value [OF assms] Mul_contributions_total [OF assms] by blast
qed

theorem Mul_closure_positive_ratios_witness:
  "valid_transition closure_example \<and> positive_ratios closure_example \<and>
   sum_list (Vt closure_example) \<noteq> sum_list (V0 closure_example) \<and>
   (\<exists>total cs. Mul closure_example = Inr (map Fin (total # cs)) \<and> length cs = 2
        \<and> total = 18 / 5 \<and> prod_list cs = total)"
proof -
  have ne: "sum_list (Vt closure_example) \<noteq> sum_list (V0 closure_example)"
    by (simp add: closure_example_def PyLMDI_init_def)
  show ?thesis
    using Mul_closure_positive_ratios [OF closure_example_valid closure_example_ratios ne]
      closure_example_valid closure_example_ratios ne
    by (simp add: closure_example_def PyLMDI_init_def numeral_2_eq_2)
qed

text \<open>
  C4. The claim has the additive contribution use the zero-sentinel log-ratio. \<open>Add\<close>
  takes \<^verbatim>\<open>np.log(end[i] / start[i])\<close> itself and never calls \<open>Xfun\<close>: with
  \<open>Vt = [2]\<close>, \<open>V0 = [1]\<close> and a driver going from 1 to 0 it takes the logarithm of 0 and
  returns the contribution \<^verbatim>\<open>-inf\<close>, where \<open>Xfun\<close> gives the sentinel 1 and the
  decomposition worded by the specification returns \<open>LogMean * 1 = 1 / ln 2\<close>.
\<close>

theorem Add_zero_driver_no_sentinel:
  "Add zero_driver_example = Inr [Fin 1, MInf]
   \<and> Xfun 0 1 = Py 1
   \<and> Add_spec zero_driver_example = Inr [Fin 1, Fin (1 / ln 2)]"
  by (simp add: core_defs Xfun_def Add_spec_def add_term_spec_def zero_driver_example_def)

text \<open>
  C7, as stated, fails: for \<open>V0 = [10, 10]\<close>, \<open>Vt = [12, 8]\<close>, \<open>X0 = [2, 2]\<close>, \<open>Xt = [3, 1]\<close>
  the total change is 0 and the driver's contribution is
  \<open>2 * ln (3/2) / ln (6/5) - 2 * ln 2 / ln (5/4)\<close>, which is not 0.
\<close>

theorem spec_example_contribution_nonzero:
  "Add spec_example = Inr [Fin 0, Fin spec_example_contribution]
   \<and> spec_example_contribution \<noteq> 0"
  using spec_example_Add spec_example_contribution_neg by simp

text \<open>
  C7 (amended). For that input \<open>Add\<close> returns the total change 0 and the contribution
  \<open>2 * ln (3/2) / ln (6/5) - 2 * ln 2 / ln (5/4)\<close>, a negative number: the aggregate
  of the example is not the product of its driver (10 is not 2), so the closure does
  not apply. For the same aggregates with the driver equal to the aggregate
  (\<open>X0 = [10, 10]\<close>, \<open>Xt = [12, 8]\<close>) the contribution is 0 exactly.
\<close>

theorem spec_example_decomposition:
  "Add spec_example = Inr [Fin 0, Fin spec_example_contribution]
   \<and> spec_example_contribution < 0
   \<and> Add identity_example = Inr [Fin 0, Fin 0]"
  using spec_example_Add spec_example_contribution_neg identity_example_Add by simp

text \<open>
  C6, as stated, fails: a division by zero does not keep \<open>Mul\<close> from returning a
  finite factor. For \<open>V0 = [10, 10]\<close>, \<open>Vt = [12, 8]\<close> (equal totals) and a driver that
  goes from 2 to 1 in both rows, each term is a numpy log-mean divided by the integer 0,
  which is \<^verbatim>\<open>inf\<close>, times \<open>ln (1/2)\<close>; the sum is \<^verbatim>\<open>-inf\<close> and its exponential is 0.
  \<open>Mul\<close> raises nothing and returns the factor 0.
\<close>

theorem Mul_equal_totals_finite_factor:
  "sum_list (Vt halving_example) = sum_list (V0 halving_example)
   \<and> Mul halving_example = Inr [Fin 1, Fin 0]"
  by (simp add: core_defs halving_example_def ln_divide_pos)

text \<open>
  C6 (amended). The degenerate multiplicative input: for every aligned input with at
  least one driver and at least one row where \<open>sum Vt = sum V0\<close>, the denominator
  \<open>Lfun (sum Vt) (sum V0)\<close> is the integer 0 by the equality rule, every term of every
  driver is divided by it, and nothing in \<open>Mul\<close> tests for the case. \<open>Mul\<close> raises
  \<^verbatim>\<open>ZeroDivisionError\<close> exactly when some row has the same aggregate in both periods
  (the quotient is then 0 / 0 on Python integers) or the factors are lists of Python
  scalars with a zero initial driver value. Otherwise it returns the total ratio
  followed by one factor per driver, and every factor is 0, \<^verbatim>\<open>inf\<close> or \<^verbatim>\<open>nan\<close>: none is
  a positive real number.
\<close>

theorem Mul_equal_totals_outcome:
  assumes "sum_list (Vt self) = sum_list (V0 self)" "aligned self" "V0 self \<noteq> []"
    "rows_of (X0 self) \<noteq> []"
  shows "Lfun (sum_list (Vt self)) (sum_list (V0 self)) = Py 0
    \<and> (if unchanged_row self \<or> python_zero_division self
        then Mul self = Inl ZeroDivisionError
        else \<exists>cs. Mul self
                     = Inr (np_div (Fin (sum_list (Vt self))) (Fin (sum_list (V0 self))) # cs)
                \<and> length cs = length (rows_of (X0 self))
                \<and> (\<forall>c\<in>set cs. degenerate_factor c))"
  using Mul_on_equal_totals [OF assms] assms(1) by (simp add: Lfun_def)

theorem Mul_equal_totals_outcome_witness:
  "sum_list (Vt halving_example) = sum_list (V0 halving_example)
   \<and> aligned halving_example \<and> V0 halving_example \<noteq> [] \<and> rows_of (X0 halving_example) \<noteq> []
   \<and> \<not> unchanged_row halving_example \<and> \<not> python_zero_division halving_example
   \<and> Lfun 20 20 = Py 0
   \<and> (\<exists>cs. Mul halving_example = Inr (Fin 1 # cs) \<and> length cs = 1
             \<and> degenerate_factor (hd cs))
   \<and> sum_list (Vt unchanged_row_example) = sum_list (V0 unchanged_row_example)
   \<and> aligned unchanged_row_example \<and> V0 unchanged_row_example \<noteq> []
   \<and> rows_of (X0 unchanged_row_example) \<noteq> []
   \<and> unchanged_row unchanged_row_example
   \<and> Mul unchanged_row_example = Inl ZeroDivisionError"
proof -
  have h: "sum_list (Vt halving_example) = sum_list (V0 halving_example)"
    "aligned halving_example" "V0 halving_example \<noteq> []" "rows_of (X0 halving_example) \<noteq> []"
    by (simp_all add: halving_example_def PyLMDI_init_def aligned_def)
  have n: "\<not> unchanged_row halving_example" "\<not> python_zero_division halving_example"
    by (simp_all add: halving_example_def PyLMDI_init_def unchanged_row_def
        python_zero_division_def lessThan_Suc)
  have u: "sum_list (Vt unchanged_row_example) = sum_list (V0 unchanged_row_example)"
    "aligned unchanged_row_example" "V0 unchanged_row_example \<noteq> []"
    "rows_of (X0 unchanged_row_example) \<noteq> []"
    by (simp_all add: unchanged_row_example_def PyLMDI_init_def aligned_def)
  have r: "unchanged_row unchanged_row_example"
    by (simp add: unchanged_row_example_def PyLMDI_init_def unchanged_row_def lessThan_Suc)
  have a: "\<exists>cs. Mul halving_example = Inr (Fin 1 # cs) \<and> length cs = 1
             \<and> degenerate_factor (hd cs)"
  proof -
    from Mul_equal_totals_outcome [OF h] n
    obtain cs where cs: "Mul halving_example
        = Inr (np_div (Fin (sum_list (Vt halving_example))) (Fin (sum_list (V0 halving_example))) # cs)"
      "length cs = length (rows_of (X0 halving_example))" "\<forall>c\<in>set cs. degenerate_factor c"
      by auto
    have "length cs = 1" using cs(2) by (simp add: halving_example_def PyLMDI_init_def)
    moreover from this have "hd cs \<in> set cs" by (cases cs) simp_all
    moreover have "np_div (Fin (sum_list (Vt halving_example))) (Fin (sum_list (V0 halving_example)))
                 = Fin 1"
      by (simp add: halving_example_def PyLMDI_init_def)
    ultimately show ?thesis using cs by auto
  qed
  have b: "Mul unchanged_row_example = Inl ZeroDivisionError"
    using Mul_equal_totals_outcome [OF u] r by simp
  have "Lfun 20 20 = Py 0" by (simp add: Lfun_def)
  then show ?thesis using h n u r a b by simp
qed

section \<open>Properties of the single step and of the analysis\<close>

text \<open>
  C3. The claim has the additive single step on a two-year panel with two unit rows and
  one driver equal to the aggregate return the total change. On \<open>two_unit_panel\<close> the
  total change is 3 and the step returns 1, the change of the first row alone:
  \<^verbatim>\<open>reshape([-1, 1])\<close> makes every cell a driver of one row, each weighted by the
  log-mean of row 0, and \<^verbatim>\<open>zip(self.drivers, ans[1:])\<close> keeps the first. \<open>Add\<close> on the
  same numbers, with the driver passed as one list over the rows, returns 3.
\<close>

theorem LMDI_decomposer_two_units_first_row_only:
  "fst (LMDI_decomposer [two_unit_panel]
          (LMDI_single_step_init 0 0 ''add'' [''D''] ''year'' ''E''))
     = Inr [(''D'', Fin 1)]
   \<and> Add (PyLMDI_init [2, 3] [1, 1] (PyLists [[2, 3]]) (PyLists [[1, 1]])) = Inr [Fin 3, Fin 3]"
  by (simp add: frame_defs core_defs two_unit_panel_def)




text \<open>
  C8, as stated, fails: the analysis does not return a table for every panel. On
  \<open>flat_panel\<close>, whose aggregate is the same in both years, the multiplicative step
  divides the integer 0 by the integer 0, Python raises \<^verbatim>\<open>ZeroDivisionError\<close>, and the
  run from 0 to 1 ends with it.
\<close>

theorem LMDI_analysis_func_degenerate_fails:
  "fst (run_analysis [flat_panel] 0 0 1 ''mul'' [''D''] ''year'' ''E'') = Inl ZeroDivisionError"
  by (simp add: run_analysis_def LMDI_analysis_init_def LMDI_analysis_func_def step_of_def
      upto.simps DataFrame_of_records_def frame_defs core_defs flat_panel_def)

text \<open>
  C8 (amended). Shape of the multi-year scan: for \<open>start < stop\<close>, when the single step
  of every year \<open>y\<close> from \<open>start\<close> to \<open>stop - 1\<close> returns a mapping, the analysis
  returns a table of exactly \<open>stop - start\<close> rows, indexed by \<open>start, \<dots>, stop - 1\<close> in
  order, and the row of year \<open>y\<close> is the mapping of the single step for the transition
  from \<open>y\<close> to \<open>y + 1\<close>. When the step of some year raises, the analysis raises the
  exception of such a step and returns no table.
\<close>

theorem LMDI_analysis_func_shape:
  assumes "start self < stop self"
  shows "(if \<forall>y\<in>set [start self..stop self - 1].
               \<exists>r. fst (LMDI_decomposer h (step_of self y)) = Inr r
          then \<exists>tbl. fst (LMDI_analysis_func h self) = Inr tbl
                 \<and> length tbl = nat (stop self - start self)
                 \<and> map fst tbl = [start self..stop self - 1]
                 \<and> (\<forall>i<length tbl. fst (LMDI_decomposer h (step_of self (start self + int i)))
                                      = Inr (snd (tbl ! i)))
          else \<exists>e y. fst (LMDI_analysis_func h self) = Inl e
                 \<and> y \<in> set [start self..stop self - 1]
                 \<and> fst (LMDI_decomposer h (step_of self y)) = Inl e)"
proof -
  let ?ys = "[start self..stop self - 1]"
  let ?f = "\<lambda>y. fst (LMDI_decomposer h (step_of self y))"
  have len: "length ?ys = nat (stop self - start self)" using assms by simp
  have nth: "?ys ! i = start self + int i" if "i < length ?ys" for i
    using that by (simp add: nth_upto)
  show ?thesis
  proof (cases "collect (map ?f ?ys)")
    case (Inl e)
    then have "Inl e \<in> set (map ?f ?ys)" by (rule collect_Inl)
    then obtain y where y: "y \<in> set ?ys" "?f y = Inl e" by auto
    then have "\<not> (\<forall>y\<in>set ?ys. \<exists>r. ?f y = Inr r)" by force
    moreover have "fst (LMDI_analysis_func h self) = Inl e"
      using Inl by (simp add: LMDI_analysis_func_collect)
    ultimately show ?thesis using y by auto
  next
    case (Inr rs)
    let ?tbl = "zip ?ys rs"
    have lrs: "length rs = length ?ys" using collect_length [OF Inr] by simp
    have run: "fst (LMDI_analysis_func h self) = Inr ?tbl"
      using Inr by (simp add: LMDI_analysis_func_collect)
    have all: "\<forall>y\<in>set ?ys. \<exists>r. ?f y = Inr r"
      using Inr collect_Inr_iff [of "map ?f ?ys"] by auto
    have "\<forall>i<length ?tbl. ?f (start self + int i) = Inr (snd (?tbl ! i))"
    proof (intro allI impI)
      fix i assume "i < length ?tbl"
      then have i: "i < length ?ys" by simp
      then have "map ?f ?ys ! i = Inr (rs ! i)" using collect_nth [OF Inr] by simp
      then show "?f (start self + int i) = Inr (snd (?tbl ! i))"
        using i lrs nth [OF i] by simp
    qed
    moreover have "map fst ?tbl = ?ys" using lrs by (intro map_fst_zip) simp
    moreover have "length ?tbl = nat (stop self - start self)" using len lrs by simp
    ultimately show ?thesis using run all by auto
  qed
qed

theorem LMDI_analysis_func_shape_witness:
  "start three_year_analysis < stop three_year_analysis
   \<and> fst (LMDI_decomposer [three_year_panel, three_year_panel] (step_of three_year_analysis 0))
       = Inr [(''D'', Fin 1)]
   \<and> fst (LMDI_decomposer [three_year_panel, three_year_panel] (step_of three_year_analysis 1))
       = Inr [(''D'', Fin (- 1))]
   \<and> (\<exists>tbl. fst (LMDI_analysis_func [three_year_panel, three_year_panel] three_year_analysis)
               = Inr tbl
          \<and> length tbl = 2 \<and> map fst tbl = [0, 1])
   \<and> start absent_years_analysis < stop absent_years_analysis
   \<and> fst (LMDI_decomposer [three_year_panel, three_year_panel] (step_of absent_years_analysis 5))
       = Inr []
   \<and> fst (LMDI_decomposer [three_year_panel, three_year_panel] (step_of absent_years_analysis 6))
       = Inr []
   \<and> (\<exists>tbl. fst (LMDI_analysis_func [three_year_panel, three_year_panel] absent_years_analysis)
               = Inr tbl
          \<and> length tbl = 2 \<and> map fst tbl = [5, 6])"
proof -
  have lt: "start three_year_analysis < stop three_year_analysis"
    by (simp add: three_year_analysis_def)
  have ys: "[start three_year_analysis..stop three_year_analysis - 1] = [0, 1]"
    by (simp add: three_year_analysis_def upto.simps)
  have steps: "\<forall>y\<in>set [start three_year_analysis..stop three_year_analysis - 1].
         \<exists>r. fst (LMDI_decomposer [three_year_panel, three_year_panel]
                     (step_of three_year_analysis y)) = Inr r"
    unfolding ys using three_year_steps by simp
  have n: "nat (stop three_year_analysis - start three_year_analysis) = 2"
    by (simp add: three_year_analysis_def)
  have a: "\<exists>tbl. fst (LMDI_analysis_func [three_year_panel, three_year_panel] three_year_analysis)
               = Inr tbl \<and> length tbl = 2 \<and> map fst tbl = [0, 1]"
    using LMDI_analysis_func_shape [OF lt, of "[three_year_panel, three_year_panel]"] steps n ys
    by auto
  have lt': "start absent_years_analysis < stop absent_years_analysis"
    by (simp add: absent_years_analysis_def)
  have ys': "[start absent_years_analysis..stop absent_years_analysis - 1] = [5, 6]"
    by (simp add: absent_years_analysis_def upto.simps)
  have steps': "\<forall>y\<in>set [start absent_years_analysis..stop absent_years_analysis - 1].
         \<exists>r. fst (LMDI_decomposer [three_year_panel, three_year_panel]
                     (step_of absent_years_analysis y)) = Inr r"
    unfolding ys' using absent_years_steps by simp
  have n': "nat (stop absent_years_analysis - start absent_years_analysis) = 2"
    by (simp add: absent_years_analysis_def)
  have b: "\<exists>tbl. fst (LMDI_analysis_func [three_year_panel, three_year_panel] absent_years_analysis)
               = Inr tbl \<and> length tbl = 2 \<and> map fst tbl = [5, 6]"
    using LMDI_analysis_func_shape [OF lt', of "[three_year_panel, three_year_panel]"] steps' n' ys'
    by auto
  show ?thesis using lt lt' three_year_steps absent_years_steps a b by simp
qed

text \<open>
  C9. The caller's panel is not changed: building the analysis on the panel at address
  \<open>p\<close> and running it leaves every object that the store held before as it was. The
  constructor keeps a copy: a new object, distinct from \<open>p\<close>, with the contents of the
  panel; the multi-year run and the single step return the store they were given.
\<close>

theorem run_analysis_preserves_store:
  "take (length h) (snd (run_analysis h p s e m ds yc ec)) = h
   \<and> (\<forall>self h1. LMDI_analysis_init h p s e m ds yc ec = (Inr self, h1) \<longrightarrow>
         LMDI_analysis.df self \<noteq> p \<and> deref h1 (LMDI_analysis.df self) = deref h p
         \<and> deref h1 p = deref h p \<and> snd (LMDI_analysis_func h1 self) = h1)
   \<and> (\<forall>st. snd (LMDI_decomposer h st) = h)"
proof (intro conjI allI impI)
  obtain r h1 where i: "LMDI_analysis_init h p s e m ds yc ec = (r, h1)"
    by (cases "LMDI_analysis_init h p s e m ds yc ec")
  show "take (length h) (snd (run_analysis h p s e m ds yc ec)) = h"
  proof (cases r)
    case (Inl err)
    then have "h1 = h" using i by (auto simp: LMDI_analysis_init_def split: sum.splits)
    then show ?thesis using i Inl by (simp add: run_analysis_def)
  next
    case (Inr self)
    then have "h1 = h @ [h ! p]" using i LMDI_analysis_init_copy(3) by blast
    then show ?thesis using i Inr by (simp add: run_analysis_def LMDI_analysis_func_heap)
  qed
next
  fix self h1 assume a: "LMDI_analysis_init h p s e m ds yc ec = (Inr self, h1)"
  note c = LMDI_analysis_init_copy [OF a]
  show "LMDI_analysis.df self \<noteq> p" using c by simp
  show "deref h1 (LMDI_analysis.df self) = deref h p" using c by (simp add: deref_def)
  show "deref h1 p = deref h p" using c by (simp add: deref_def nth_append)
  show "snd (LMDI_analysis_func h1 self) = h1" by (rule LMDI_analysis_func_heap)
next
  fix st show "snd (LMDI_decomposer h st) = h" by (rule LMDI_decomposer_heap)
qed

theorem run_analysis_preserves_store_witness:
  "LMDI_analysis_init [three_year_panel] 0 0 2 ''add'' [''D''] ''year'' ''E''
     = (Inr three_year_analysis, [three_year_panel, three_year_panel])
   \<and> LMDI_analysis.df three_year_analysis \<noteq> 0
   \<and> deref [three_year_panel, three_year_panel] 0 = deref [three_year_panel] 0
   \<and> snd (LMDI_analysis_func [three_year_panel, three_year_panel] three_year_analysis)
       = [three_year_panel, three_year_panel]
   \<and> take 1 (snd (run_analysis [three_year_panel] 0 0 2 ''add'' [''D''] ''year'' ''E''))
       = [three_year_panel]"
proof -
  have i: "LMDI_analysis_init [three_year_panel] 0 0 2 ''add'' [''D''] ''year'' ''E''
     = (Inr three_year_analysis, [three_year_panel, three_year_panel])"
    by (simp add: LMDI_analysis_init_def deref_def three_year_analysis_def)
  show ?thesis
    using run_analysis_preserves_store
            [of "[three_year_panel]" 0 0 2 "''add''" "[''D'']" "''year''" "''E''"] i
    by simp
qed

end
